theory Spec2Isabelle
  imports Complex_Main
begin

section \<open>Point-region octrees (package octree)\<close>

subsection \<open>The float64 values of the coordinates\<close>

text \<open>
  A \<open>float64\<close> is a finite value, one of the two infinities or a NaN. Finite values are
  read as real numbers: comparisons of finite floats agree with the comparisons of the
  reals they denote, and the special values follow IEEE 754 as Go implements it
  (a comparison with a NaN is false, \<open>x / 0\<close> is an infinity or a NaN,
  \<open>Inf - Inf\<close> is a NaN). Rounding, overflow and the sign of zero are not represented:
  the arithmetic of finite values is the exact arithmetic of the reals.
\<close>

datatype float64 = NaN | NegInf | Finite real | PosInf

text \<open>Go's \<open><\<close>, \<open>>\<close>, \<open>==\<close> and \<open>!=\<close> on float64.\<close>

fun flt :: "float64 \<Rightarrow> float64 \<Rightarrow> bool" where
  "flt (Finite a) (Finite b) = (a < b)"
| "flt (Finite a) PosInf = True"
| "flt NegInf (Finite b) = True"
| "flt NegInf PosInf = True"
| "flt _ _ = False"

definition fgt :: "float64 \<Rightarrow> float64 \<Rightarrow> bool" where
  "fgt x y = flt y x"

fun feq :: "float64 \<Rightarrow> float64 \<Rightarrow> bool" where
  "feq (Finite a) (Finite b) = (a = b)"
| "feq PosInf PosInf = True"
| "feq NegInf NegInf = True"
| "feq _ _ = False"

definition fne :: "float64 \<Rightarrow> float64 \<Rightarrow> bool" where
  "fne x y = (\<not> feq x y)"

fun fneg :: "float64 \<Rightarrow> float64" where
  "fneg NaN = NaN"
| "fneg NegInf = PosInf"
| "fneg (Finite a) = Finite (- a)"
| "fneg PosInf = NegInf"

fun fadd :: "float64 \<Rightarrow> float64 \<Rightarrow> float64" where
  "fadd NaN _ = NaN"
| "fadd _ NaN = NaN"
| "fadd PosInf NegInf = NaN"
| "fadd NegInf PosInf = NaN"
| "fadd PosInf _ = PosInf"
| "fadd _ PosInf = PosInf"
| "fadd NegInf _ = NegInf"
| "fadd _ NegInf = NegInf"
| "fadd (Finite a) (Finite b) = Finite (a + b)"

definition fsub :: "float64 \<Rightarrow> float64 \<Rightarrow> float64" where
  "fsub x y = fadd x (fneg y)"

text \<open>An infinity times or divided by a finite value of the given sign.\<close>

definition inf_signed :: "float64 \<Rightarrow> bool \<Rightarrow> float64" where
  "inf_signed i positive = (if positive then i else fneg i)"

fun fmul :: "float64 \<Rightarrow> float64 \<Rightarrow> float64" where
  "fmul NaN _ = NaN"
| "fmul _ NaN = NaN"
| "fmul (Finite a) (Finite b) = Finite (a * b)"
| "fmul (Finite a) i = (if a = 0 then NaN else inf_signed i (0 < a))"
| "fmul i (Finite b) = (if b = 0 then NaN else inf_signed i (0 < b))"
| "fmul PosInf i = i"
| "fmul NegInf i = fneg i"

fun fdiv :: "float64 \<Rightarrow> float64 \<Rightarrow> float64" where
  "fdiv NaN _ = NaN"
| "fdiv _ NaN = NaN"
| "fdiv (Finite a) (Finite b) =
     (if b = 0 then (if a = 0 then NaN else if 0 < a then PosInf else NegInf)
      else Finite (a / b))"
| "fdiv (Finite a) i = Finite 0"
| "fdiv i (Finite b) = inf_signed i (0 \<le> b)"
| "fdiv _ _ = NaN"

text \<open>\<open>math.Sqrt\<close>, \<open>math.Abs\<close>, \<open>math.Max\<close> and \<open>math.Min\<close> with their special cases.\<close>

fun math_Sqrt :: "float64 \<Rightarrow> float64" where
  "math_Sqrt NaN = NaN"
| "math_Sqrt NegInf = NaN"
| "math_Sqrt (Finite a) = (if a < 0 then NaN else Finite (sqrt a))"
| "math_Sqrt PosInf = PosInf"

fun math_Abs :: "float64 \<Rightarrow> float64" where
  "math_Abs NaN = NaN"
| "math_Abs NegInf = PosInf"
| "math_Abs (Finite a) = Finite \<bar>a\<bar>"
| "math_Abs PosInf = PosInf"

fun math_Max :: "float64 \<Rightarrow> float64 \<Rightarrow> float64" where
  "math_Max PosInf _ = PosInf"
| "math_Max _ PosInf = PosInf"
| "math_Max NaN _ = NaN"
| "math_Max _ NaN = NaN"
| "math_Max NegInf y = y"
| "math_Max x NegInf = x"
| "math_Max (Finite a) (Finite b) = Finite (max a b)"

fun math_Min :: "float64 \<Rightarrow> float64 \<Rightarrow> float64" where
  "math_Min NegInf _ = NegInf"
| "math_Min _ NegInf = NegInf"
| "math_Min NaN _ = NaN"
| "math_Min _ NaN = NaN"
| "math_Min PosInf y = y"
| "math_Min x PosInf = x"
| "math_Min (Finite a) (Finite b) = Finite (min a b)"

definition float64_of_int :: "int \<Rightarrow> float64" where
  "float64_of_int n = Finite (of_int n)"

subsection \<open>Exported types\<close>

text \<open>
  \<open>DataCoords\<close> is \<open>[3]float64\<close>; the loops \<open>for k := range\<close> over such an array visit
  the axes 0, 1 and 2 in this order. \<open>DataSet\<close> is \<open>map[string]DataCoords\<close>: it is
  written as the list of its entries in the order an iteration visits them, so the
  keys of a data set are distinct and its length is \<open>len\<close> of the map. Go leaves the
  order of an iteration over a map open; the properties below hold for every list, and
  those of the builder for every center calculator, so they do not depend on it.
\<close>

type_synonym DataCoords = "float64 \<times> float64 \<times> float64"

type_synonym DataSet = "(string \<times> DataCoords) list"

definition axes :: "nat list" where
  "axes = [0, 1, 2]"

fun axis :: "DataCoords \<Rightarrow> nat \<Rightarrow> float64" where
  "axis (x, y, z) k = (if k = 0 then x else if k = 1 then y else z)"

fun set_axis :: "DataCoords \<Rightarrow> nat \<Rightarrow> float64 \<Rightarrow> DataCoords" where
  "set_axis (x, y, z) k v = (if k = 0 then (v, y, z) else if k = 1 then (x, v, z) else (x, y, v))"

definition zero_coords :: DataCoords where
  "zero_coords = (Finite 0, Finite 0, Finite 0)"

subsection \<open>Octree build and query\<close>

text \<open>
  \<open>assignOctant\<close>: for each axis \<open>k\<close> of the point, \<open>octant += (1 << uint(k))\<close> when the
  point's coordinate is greater than the center's.
\<close>

definition assignOctant :: "DataCoords \<Rightarrow> DataCoords \<Rightarrow> int" where
  "assignOctant refCenter refPoint =
     foldl (\<lambda>octant k. if fgt (axis refPoint k) (axis refCenter k)
                        then octant + push_bit k 1 else octant) 0 axes"

text \<open>
  \<open>calcAitkenEstimate\<close>: the limit of a sequence in R^3 by Aitken acceleration, from
  the three estimates \<open>e[0]\<close>, \<open>e[1]\<close>, \<open>e[2]\<close>.
\<close>

definition calcAitkenEstimate :: "DataCoords list \<Rightarrow> DataCoords" where
  "calcAitkenEstimate e =
     foldl (\<lambda>aitken k.
        let num = fsub (axis (e ! 1) k) (axis (e ! 0) k);
            num = fmul num num;
            denom = fadd (fsub (axis (e ! 2) k) (fmul (Finite 2) (axis (e ! 1) k))) (axis (e ! 0) k)
        in if fne denom (Finite 0)
           then set_axis aitken k (fsub (axis (e ! 0) k) (fdiv num denom))
           else set_axis aitken k (axis (e ! 2) k))
       zero_coords axes"

text \<open>
  \<open>calcWeiszfeldEstimate\<close>: one step of Weiszfeld's fixed-point expression. The body of
  the loop over the points is \<open>weiszfeld_point\<close>: the Euclidean distance \<open>metric\<close> of the
  point to the estimate, \<open>denom += 1./metric\<close> and \<open>num[k] += v[k]/metric\<close>.
\<close>

definition weiszfeld_metric :: "DataCoords \<Rightarrow> DataCoords \<Rightarrow> float64" where
  "weiszfeld_metric v refEstimate =
     math_Sqrt (foldl (\<lambda>metric k. let diff = fsub (axis v k) (axis refEstimate k)
                                   in fadd metric (fmul diff diff)) (Finite 0) axes)"

definition weiszfeld_point ::
  "DataCoords \<Rightarrow> float64 \<times> DataCoords \<Rightarrow> string \<times> DataCoords \<Rightarrow> float64 \<times> DataCoords" where
  "weiszfeld_point refEstimate acc kv =
     (let metric = weiszfeld_metric (snd kv) refEstimate;
          denom = fadd (fst acc) (fdiv (Finite 1) metric);
          num = foldl (\<lambda>num k. set_axis num k (fadd (axis num k) (fdiv (axis (snd kv) k) metric)))
                  (snd acc) axes
      in (denom, num))"

definition calcWeiszfeldEstimate :: "DataSet \<Rightarrow> DataCoords \<Rightarrow> DataCoords" where
  "calcWeiszfeldEstimate refPoints refEstimate =
     (let acc = foldl (weiszfeld_point refEstimate) (Finite 0, zero_coords) refPoints
      in foldl (\<lambda>weiszfeld k. set_axis weiszfeld k (fdiv (axis (snd acc) k) (fst acc)))
           zero_coords axes)"

subsection \<open>Errors\<close>

text \<open>
  Every \<open>halt\<close> of the package ends the process with a message. The messages are named
  after the conditions they report:
  \<^item> \<open>InvalidThreshold\<close>: "invalid termination criterion";
  \<^item> \<open>EmptyInput\<close>: "there are no points to process";
  \<^item> \<open>InvalidMethod\<close>: "unrecognized method name";
  \<^item> \<open>MaxIterationsExceeded\<close>: "maximum number of iterations exceeded";
  \<^item> \<open>EmptyTree\<close>: "there's no octree to export / process / query / summarize";
  \<^item> \<open>NoFilename\<close>: "the filename was not specified";
  \<^item> \<open>MarshalError\<close>: "Marshal/MarshalIndent - ..." (encoding/json refuses a NaN or an
    infinity);
  \<^item> \<open>FileMissingOrEmpty\<close>: "the input file cannot be located or is empty";
  \<^item> \<open>CorruptData\<close>: "json.Unmarshal - ..." (the file's text does not decode).
  \<open>IndexOutOfRange\<close>, \<open>LenOutOfRange\<close> (a \<open>make\<close> whose length is negative or more than
  the run time allocates) and \<open>NilDereference\<close> are the run-time panics of Go.
\<close>

datatype error =
    InvalidThreshold
  | EmptyInput
  | InvalidMethod
  | MaxIterationsExceeded
  | EmptyTree
  | NoFilename
  | MarshalError
  | FileMissingOrEmpty
  | CorruptData
  | IndexOutOfRange
  | LenOutOfRange
  | NilDereference

subsection \<open>Center calculators (makeCalcCenter)\<close>

type_synonym centerFn = "DataSet \<Rightarrow> error + DataCoords"

definition calcCentroid :: "DataSet \<Rightarrow> DataCoords" where
  "calcCentroid refPoints =
     (let numPts = float64_of_int (int (length refPoints));
          centroid = foldl (\<lambda>centroid kv.
                       foldl (\<lambda>centroid k. set_axis centroid k (fadd (axis centroid k) (axis (snd kv) k)))
                         centroid axes) zero_coords refPoints
      in foldl (\<lambda>centroid k. set_axis centroid k (fdiv (axis centroid k) numPts)) centroid axes)"

text \<open>\<open>dataBounds [3]minMax\<close> is kept as the pair of the three minima and the three maxima.\<close>

definition calcDataMidPoint :: "DataSet \<Rightarrow> DataCoords" where
  "calcDataMidPoint refPoints =
     (let dataBounds = foldl (\<lambda>dataBounds kv.
                         foldl (\<lambda>bounds k.
                            (set_axis (fst bounds) k (math_Min (axis (snd kv) k) (axis (fst bounds) k)),
                             set_axis (snd bounds) k (math_Max (axis (snd kv) k) (axis (snd bounds) k))))
                           dataBounds axes)
                        ((PosInf, PosInf, PosInf), (NegInf, NegInf, NegInf)) refPoints
      in (fmul (Finite (1/2)) (fadd (axis (fst dataBounds) 0) (axis (snd dataBounds) 0)),
          fmul (Finite (1/2)) (fadd (axis (fst dataBounds) 1) (axis (snd dataBounds) 1)),
          fmul (Finite (1/2)) (fadd (axis (fst dataBounds) 2) (axis (snd dataBounds) 2))))"

text \<open>
  The geometric median. \<open>medians [4]DataCoords\<close> and \<open>diffs [4][3]float64\<close> are lists of
  four triples. \<open>geomedian_substeps\<close> is the loop \<open>for ctrl := 1; ctrl < 4; ctrl++\<close>: it
  returns \<open>Inl\<close> the estimate it converged on, or \<open>Inr\<close> the arrays when it ran through.
  \<open>geomedian_loop\<close> is the loop \<open>for iterations < MaxIterations\<close>.
\<close>

fun geomedian_substeps ::
  "DataSet \<Rightarrow> float64 \<Rightarrow> nat list \<Rightarrow> DataCoords list \<Rightarrow> DataCoords list
   \<Rightarrow> DataCoords + (DataCoords list \<times> DataCoords list)" where
  "geomedian_substeps refPoints tol [] medians diffs' = Inr (medians, diffs')"
| "geomedian_substeps refPoints tol (ctrl # ctrls) medians diffs' =
     (let medians = medians[ctrl :=
            (if ctrl \<noteq> 3 then calcWeiszfeldEstimate refPoints (medians ! (ctrl - 1))
             else calcAitkenEstimate (take 3 medians))];
          diffs' = diffs'[ctrl :=
            foldl (\<lambda>d k. set_axis d k
                     (math_Abs (fsub (axis (medians ! ctrl) k) (axis (medians ! (ctrl - 1)) k))))
              (diffs' ! ctrl) axes]
      in if flt (math_Max (axis (diffs' ! ctrl) 0)
                   (math_Max (axis (diffs' ! ctrl) 1) (axis (diffs' ! ctrl) 2))) tol
         then Inl (medians ! ctrl)
         else geomedian_substeps refPoints tol ctrls medians diffs')"

function geomedian_loop ::
  "int \<Rightarrow> float64 \<Rightarrow> DataSet \<Rightarrow> DataCoords list \<Rightarrow> DataCoords list \<Rightarrow> int
   \<Rightarrow> error + DataCoords" where
  "geomedian_loop maxIterations tol refPoints medians diffs' iterations =
     (if iterations < maxIterations then
        (case geomedian_substeps refPoints tol [1, 2, 3] medians diffs' of
           Inl result \<Rightarrow> Inr result
         | Inr (medians, diffs') \<Rightarrow>
             geomedian_loop maxIterations tol refPoints
               (medians[0 :=
                  foldl (\<lambda>guess k.
                     if fgt (axis (diffs' ! 1) k) (axis (diffs' ! 2) k)
                        \<and> fgt (axis (diffs' ! 2) k) (axis (diffs' ! 3) k)
                     then set_axis guess k (axis (medians ! 3) k)
                     else set_axis guess k (axis (medians ! 2) k))
                    (medians ! 0) axes])
               diffs' (iterations + 3))
      else Inl MaxIterationsExceeded)"
  by pat_completeness auto
termination
  by (relation "measure (\<lambda>(maxIterations, tol, refPoints, medians, diffs', iterations).
                  nat (maxIterations - iterations))") auto

definition calcGeometricMedian :: "int \<Rightarrow> float64 \<Rightarrow> DataSet \<Rightarrow> error + DataCoords" where
  "calcGeometricMedian maxIterations tol refPoints =
     geomedian_loop maxIterations tol refPoints
       (calcCentroid refPoints # replicate 3 zero_coords) (replicate 4 zero_coords) 0"

text \<open>
  \<open>sort.Sort(sort.Float64Slice(ordinates))\<close>: ascending, a NaN before every other value
  (\<open>Less\<close> is \<open>x[i] < x[j] || (isNaN(x[i]) && !isNaN(x[j]))\<close>).
\<close>

definition float64_Less :: "float64 \<Rightarrow> float64 \<Rightarrow> bool" where
  "float64_Less x y = (flt x y \<or> (x = NaN \<and> y \<noteq> NaN))"

fun float64_insert :: "float64 \<Rightarrow> float64 list \<Rightarrow> float64 list" where
  "float64_insert x [] = [x]"
| "float64_insert x (y # ys) = (if float64_Less y x then y # float64_insert x ys else x # y # ys)"

definition float64_sort :: "float64 list \<Rightarrow> float64 list" where
  "float64_sort xs = foldr float64_insert xs []"

definition calcXYZMedians :: "DataSet \<Rightarrow> error + DataCoords" where
  "calcXYZMedians refPoints =
     (let numPts = length refPoints;
          midIdx = numPts div 2
      in if numPts mod 2 = 0 \<and> midIdx = 0 then Inl IndexOutOfRange
         else Inr (foldl (\<lambda>medians k.
                 let ordinates = float64_sort (map (\<lambda>kv. axis (snd kv) k) refPoints)
                 in if numPts mod 2 \<noteq> 0 then set_axis medians k (ordinates ! midIdx)
                    else set_axis medians k
                           (fdiv (fadd (ordinates ! (midIdx - 1)) (ordinates ! midIdx)) (Finite 2)))
               zero_coords axes))"

text \<open>
  The package variables \<open>MaxIterations\<close> and \<open>Tol\<close>, and the two formatting functions of
  other packages that \<open>calcStats\<close> calls: \<open>humanize.Comma\<close> and \<open>fmt.Sprintf("%.2f", _)\<close>.

  \<open>maxNodes\<close> and \<open>maxJsonNodes\<close> are the limits of the machine on which the package
  runs: the greatest lengths for which \<open>make([]node, n, n)\<close> and \<open>make([]jsonNode, n)\<close>
  return. For a greater length \<open>makeslice\<close> panics with "len out of range" (the slice
  would take more than the run time can address), or the run time ends the process for
  lack of memory.
\<close>

record env =
  MaxIterations :: int
  Tol :: float64
  Comma :: "int \<Rightarrow> string"
  Sprintf_2f :: "float64 \<Rightarrow> string"
  maxNodes :: int
  maxJsonNodes :: int

definition makeCalcCenter :: "env \<Rightarrow> string \<Rightarrow> error + centerFn" where
  "makeCalcCenter e meth =
     (if meth = ''Centroid'' then Inr (\<lambda>refPoints. Inr (calcCentroid refPoints))
      else if meth = ''DataMidPoint'' then Inr (\<lambda>refPoints. Inr (calcDataMidPoint refPoints))
      else if meth = ''Geometric Median'' then Inr (calcGeometricMedian (MaxIterations e) (Tol e))
      else if meth = ''XYZ Medians'' then Inr calcXYZMedians
      else Inl InvalidMethod)"

subsection \<open>The octree and its statistics\<close>

text \<open>
  \<open>nodeLinks\<close> is \<open>[8]int\<close>: a list of eight links, one per octant. A blank \<open>node{}\<close> has
  count 0, center (0,0,0), eight links 0 and no keys.
\<close>

record node =
  N :: int
  CENTER :: DataCoords
  CHILDREN :: "int list"
  KEYS :: string

definition blank_node :: node where
  "blank_node = \<lparr>N = 0, CENTER = zero_coords, CHILDREN = replicate 8 0, KEYS = []\<rparr>"

record statistics =
  HOW :: string
  SIZE :: int
  STOP :: int
  TIME :: int
  LEAFCOUNTS :: "int list"
  MINPTS :: string
  MAXPTS :: string
  NUMPARENTS :: string
  NUMPTS :: string
  NUMLEAVES :: string
  NUMEMPTY :: string
  OCTREELEN :: string
  TERMINAL_N :: string
  MU :: string
  SIGMA_DEV :: string
  LOWER :: string
  UPPER :: string
  XMIN :: int
  XMAX :: int

text \<open>
  The field \<open>SIGMA\<close> of the source is \<open>SIGMA_DEV\<close> here (\<open>SIGMA\<close> is notation of HOL).
  The package state is the pair of the variables \<open>_octree\<close> and \<open>_stats\<close>.
\<close>

record state =
  octree :: "node list"
  stats :: statistics

definition blank_statistics :: statistics where
  "blank_statistics =
     \<lparr>HOW = [], SIZE = 0, STOP = 0, TIME = 0, LEAFCOUNTS = [], MINPTS = [], MAXPTS = [],
      NUMPARENTS = [], NUMPTS = [], NUMLEAVES = [], NUMEMPTY = [], OCTREELEN = [],
      TERMINAL_N = [], MU = [], SIGMA_DEV = [], LOWER = [], UPPER = [], XMIN = 0, XMAX = 0\<rparr>"

definition initial_state :: state where
  "initial_state = \<lparr>octree = [], stats = blank_statistics\<rparr>"

text \<open>\<open>strings.Join(elems, sep)\<close>.\<close>

fun Join :: "string list \<Rightarrow> string \<Rightarrow> string" where
  "Join [] sep = []"
| "Join [x] sep = x"
| "Join (x # y # ys) sep = x @ sep @ Join (y # ys) sep"

text \<open>
  \<open>strings.Split(s, ",")\<close>, with which the demo of the package reads the identifiers out
  of the string that \<open>Query\<close> returns.
\<close>

fun Split :: "string \<Rightarrow> string list" where
  "Split [] = [[]]"
| "Split (c # cs) =
     (if c = CHR '','' then [] # Split cs
      else (case Split cs of [] \<Rightarrow> [[c]] | x # xs \<Rightarrow> (c # x) # xs))"

text \<open>
  The segregation of the points relative to the partition point:
  \<open>for k, v := range *refPoints { childPts[assignOctant(&center,&v)][k] = v }\<close>. The keys
  of a data set are distinct, so the assignment adds an entry to the child's map.
\<close>

definition segregate :: "DataCoords \<Rightarrow> DataSet \<Rightarrow> DataSet list" where
  "segregate center refPoints =
     foldl (\<lambda>childPts kv.
              childPts[nat (assignOctant center (snd kv)) :=
                         childPts ! nat (assignOctant center (snd kv)) @ [kv]])
       (replicate 8 []) refPoints"

text \<open>
  The builder closure of \<open>makeBuilder\<close>. \<open>build\<close> holds what a call reads and writes: the
  octree under construction (\<open>_octree\<close>) and the closure's variables \<open>masterNodeIdx\<close> and
  \<open>current\<close> (the progress-bar count; the progress bar itself only prints).

  The recursion of the builder through \<open>_builder\<close> need not end, so \<open>builder\<close> takes the
  depth of recursion it may use: with none left the result is \<open>None\<close>. \<open>Some (Inl e)\<close>
  is a halt or a panic, \<open>Some (Inr b)\<close> a return. \<open>create_children\<close> is the loop
  \<open>for k := range childPts\<close>, given the function that \<open>_builder\<close> holds.
\<close>

record build =
  tree :: "node list"
  masterNodeIdx :: nat
  current :: nat

fun create_children ::
  "(DataSet \<Rightarrow> build \<Rightarrow> (error + build) option) \<Rightarrow> nat \<Rightarrow> DataSet list \<Rightarrow> nat list \<Rightarrow> build
   \<Rightarrow> (error + build) option" where
  "create_children bld thisNodeIdx childPts [] b = Some (Inr b)"
| "create_children bld thisNodeIdx childPts (k # ks) b =
     (if \<not> thisNodeIdx < length (tree b) then Some (Inl IndexOutOfRange)
      else
        (case bld (childPts ! k)
                (b\<lparr>masterNodeIdx := masterNodeIdx b + 1,
                   tree := (tree b)[thisNodeIdx := (tree b ! thisNodeIdx)
                              \<lparr>CHILDREN := (CHILDREN (tree b ! thisNodeIdx))
                                             [k := int (masterNodeIdx b + 1)]\<rparr>]\<rparr>) of
           None \<Rightarrow> None
         | Some (Inl err) \<Rightarrow> Some (Inl err)
         | Some (Inr b') \<Rightarrow> create_children bld thisNodeIdx childPts ks b'))"

primrec builder ::
  "centerFn \<Rightarrow> int \<Rightarrow> nat \<Rightarrow> DataSet \<Rightarrow> build \<Rightarrow> (error + build) option" where
  "builder calcCenter terminal_N 0 = (\<lambda>refPoints b. None)"
| "builder calcCenter terminal_N (Suc fuel) = (\<lambda>refPoints b.
     (let numPts = int (length refPoints);
          oct = tree b @ [blank_node];
          thisNodeIdx = masterNodeIdx b
      in if \<not> thisNodeIdx < length oct then Some (Inl IndexOutOfRange)
         else
           (let oct = oct[thisNodeIdx := (oct ! thisNodeIdx)\<lparr>N := numPts\<rparr>]
            in if numPts \<le> terminal_N
               then Some (Inr (b\<lparr>tree := oct[thisNodeIdx := (oct ! thisNodeIdx)
                                           \<lparr>KEYS := Join (map fst refPoints) '',''\<rparr>],
                                 current := current b + length refPoints\<rparr>))
               else
                 (case calcCenter refPoints of
                    Inl err \<Rightarrow> Some (Inl err)
                  | Inr center \<Rightarrow>
                      create_children (builder calcCenter terminal_N fuel) thisNodeIdx
                        (segregate center refPoints) [0..<8]
                        (b\<lparr>tree := oct[thisNodeIdx := (oct ! thisNodeIdx)\<lparr>CENTER := center\<rparr>]\<rparr>)))))"

definition makeBuilder ::
  "env \<Rightarrow> string \<Rightarrow> int \<Rightarrow> nat \<Rightarrow> error + (nat \<Rightarrow> DataSet \<Rightarrow> build \<Rightarrow> (error + build) option)" where
  "makeBuilder e meth terminal_N numPts =
     (case makeCalcCenter e meth of
        Inl err \<Rightarrow> Inl err
      | Inr calcCenter \<Rightarrow> Inr (builder calcCenter terminal_N))"

subsection \<open>Reporting: calcStats\<close>

text \<open>\<open>mathutil.MaxInt\<close> and \<open>mathutil.MinInt\<close> of a 64-bit \<open>int\<close>.\<close>

definition MaxInt :: int where
  "MaxInt = 2 ^ 63 - 1"

definition MinInt :: int where
  "MinInt = - (2 ^ 63)"

record tally =
  minPts :: int
  maxPts :: int
  numParents :: int
  numLeaves :: int
  numEmpty :: int
  leafCounts :: "int list"

definition tally_node :: "int \<Rightarrow> tally \<Rightarrow> node \<Rightarrow> tally" where
  "tally_node stop t v =
     (if N v > stop then t\<lparr>numParents := numParents t + 1\<rparr>
      else t\<lparr>numLeaves := numLeaves t + 1,
             leafCounts := leafCounts t @ [N v],
             minPts := min (minPts t) (N v),
             maxPts := max (maxPts t) (N v),
             numEmpty := (if N v = 0 then numEmpty t + 1 else numEmpty t)\<rparr>)"

definition calcStats :: "env \<Rightarrow> state \<Rightarrow> error + state" where
  "calcStats e st =
     (let t = foldl (tally_node (STOP (stats st)))
                \<lparr>minPts = MaxInt, maxPts = MinInt, numParents = 0, numLeaves = 0,
                 numEmpty = 0, leafCounts = []\<rparr> (octree st);
          mu = fdiv (foldl (\<lambda>mu v. fadd mu (float64_of_int v)) (Finite 0) (leafCounts t))
                 (float64_of_int (numLeaves t));
          sigma = math_Sqrt
                    (fdiv (foldl (\<lambda>sigma v. let diff = fsub (float64_of_int v) mu
                                              in fadd sigma (fmul diff diff))
                             (Finite 0) (leafCounts t))
                       (float64_of_int (numLeaves t)))
      in if octree st = [] then Inl IndexOutOfRange
         else Inr (st\<lparr>stats := (stats st)
                  \<lparr>LEAFCOUNTS := leafCounts t,
                   NUMPTS := Comma e (N (octree st ! 0)),
                   MINPTS := Comma e (minPts t),
                   MAXPTS := Comma e (maxPts t),
                   NUMPARENTS := Comma e (numParents t),
                   NUMLEAVES := Comma e (numLeaves t),
                   NUMEMPTY := Comma e (numEmpty t),
                   OCTREELEN := Comma e (SIZE (stats st)),
                   TERMINAL_N := Comma e (STOP (stats st)),
                   MU := Sprintf_2f e mu,
                   SIGMA_DEV := Sprintf_2f e sigma,
                   LOWER := Sprintf_2f e (fsub mu sigma),
                   UPPER := Sprintf_2f e (fadd mu sigma),
                   XMIN := minPts t,
                   XMAX := maxPts t\<rparr>\<rparr>))"

subsection \<open>Make and Query\<close>

text \<open>
  \<open>Make\<close>: \<open>fuel\<close> is the depth of recursion the builder may use, \<open>elapsed\<close> the time the
  build took (\<open>time.Since(start)\<close>).
\<close>

definition Make ::
  "env \<Rightarrow> nat \<Rightarrow> int \<Rightarrow> string \<Rightarrow> int \<Rightarrow> DataSet \<Rightarrow> state \<Rightarrow> (error + state) option" where
  "Make e fuel elapsed meth terminal_N refPoints st =
     (if \<not> terminal_N > 1 then Some (Inl InvalidThreshold)
      else if length refPoints = 0 then Some (Inl EmptyInput)
      else
        (case makeBuilder e meth terminal_N (length refPoints) of
           Inl err \<Rightarrow> Some (Inl err)
         | Inr bld \<Rightarrow>
             (case bld fuel refPoints \<lparr>tree = [], masterNodeIdx = 0, current = 0\<rparr> of
                None \<Rightarrow> None
              | Some (Inl err) \<Rightarrow> Some (Inl err)
              | Some (Inr b) \<Rightarrow>
                  Some (calcStats e
                    \<lparr>octree = tree b,
                     stats = (stats st)\<lparr>HOW := meth, STOP := terminal_N, TIME := elapsed,
                                         SIZE := int (length (tree b))\<rparr>\<rparr>))))"

text \<open>
  \<open>Query\<close>: the loop \<open>for _octree[nodeIdx].N > _stats.STOP\<close> is \<open>descend\<close>; a loop that
  never ends has the value \<open>None\<close>, an index outside the octree panics.
\<close>

partial_function (option) descend ::
  "node list \<Rightarrow> int \<Rightarrow> DataCoords \<Rightarrow> int \<Rightarrow> (error + string) option" where
  "descend oct stop refQueryPt nodeIdx =
     (if nodeIdx < 0 \<or> int (length oct) \<le> nodeIdx then Some (Inl IndexOutOfRange)
      else if N (oct ! nat nodeIdx) > stop
      then descend oct stop refQueryPt
             (CHILDREN (oct ! nat nodeIdx)
                ! nat (assignOctant (CENTER (oct ! nat nodeIdx)) refQueryPt))
      else Some (Inr (KEYS (oct ! nat nodeIdx))))"

definition Query :: "state \<Rightarrow> DataCoords \<Rightarrow> (error + string) option" where
  "Query st refQueryPt =
     (if SIZE (stats st) = 0 then Some (Inl EmptyTree)
      else descend (octree st) (STOP (stats st)) refQueryPt 0)"

subsection \<open>Export and Import\<close>






text \<open>
  \<open>json.Marshal\<close> and \<open>json.MarshalIndent\<close> return an error for a float64 that is a NaN
  or an infinity; every other value of the structure has a text.
\<close>

fun is_finite :: "float64 \<Rightarrow> bool" where
  "is_finite (Finite a) = True"
| "is_finite _ = False"

definition finite_coords :: "DataCoords \<Rightarrow> bool" where
  "finite_coords c = (is_finite (axis c 0) \<and> is_finite (axis c 1) \<and> is_finite (axis c 2))"















subsection \<open>The shape of a built octree\<close>

text \<open>
  \<open>built calc stop base pts blk\<close>: \<open>blk\<close> is the block of nodes that a returning call of
  the builder on the points \<open>pts\<close> appends to an octree of \<open>base\<close> nodes, with center
  calculator \<open>calc\<close> and termination criterion \<open>stop\<close>: one leaf, or a parent followed by
  the blocks of its eight children (\<open>built_children\<close>), the links of the parent being
  the indices at which these blocks start. \<open>set_links\<close> is the effect of the assignments
  \<open>CHILDREN[k] = masterNodeIdx\<close> of the loop over the children.
\<close>

inductive built :: "centerFn \<Rightarrow> int \<Rightarrow> nat \<Rightarrow> DataSet \<Rightarrow> node list \<Rightarrow> bool"
  and built_children :: "centerFn \<Rightarrow> int \<Rightarrow> nat \<Rightarrow> DataSet list \<Rightarrow> node list \<Rightarrow> int list \<Rightarrow> bool"
  for calc :: centerFn and stop :: int where
  leaf: "int (length pts) \<le> stop \<Longrightarrow>
         built calc stop base pts [blank_node\<lparr>N := int (length pts), KEYS := Join (map fst pts) '',''\<rparr>]"
| parent: "stop < int (length pts) \<Longrightarrow> calc pts = Inr c \<Longrightarrow>
           built_children calc stop (Suc base) (segregate c pts) blk links \<Longrightarrow>
           built calc stop base pts
             (blank_node\<lparr>N := int (length pts), CENTER := c, CHILDREN := links\<rparr> # blk)"
| nil: "built_children calc stop base [] [] []"
| cons: "built calc stop base p b \<Longrightarrow> built_children calc stop (base + length b) ps bs ls \<Longrightarrow>
         built_children calc stop base (p # ps) (b @ bs) (int base # ls)"

definition set_links :: "nat list \<Rightarrow> int list \<Rightarrow> int list \<Rightarrow> int list" where
  "set_links ks links ch = fold (\<lambda>kl ch. ch[fst kl := snd kl]) (zip ks links) ch"

text \<open>
  The two shapes of a node. A parent at index \<open>idx\<close> of an octree of \<open>bound\<close> nodes has no
  keys and eight links, each an index of the octree greater than \<open>idx\<close>. A leaf has the
  center and the links of a blank node, and its keys are the joined identifiers of as
  many points as its count. \<open>node_ok\<close> ties the shape to the comparison of the count
  with the termination criterion; \<open>leaves\<close> are the nodes that this comparison (the one
  of \<open>calcStats\<close>, \<open>Query\<close> and \<open>Export\<close>) takes for leaves.
\<close>

definition parent_shape :: "nat \<Rightarrow> nat \<Rightarrow> node \<Rightarrow> bool" where
  "parent_shape idx bound nd =
     (KEYS nd = [] \<and> length (CHILDREN nd) = 8
      \<and> list_all (\<lambda>l. int idx < l \<and> l < int bound) (CHILDREN nd))"

definition leaf_shape :: "node \<Rightarrow> bool" where
  "leaf_shape nd =
     (CENTER nd = zero_coords \<and> CHILDREN nd = replicate 8 0
      \<and> (\<exists>keys. int (length keys) = N nd \<and> KEYS nd = Join keys '',''))"

definition node_ok :: "int \<Rightarrow> nat \<Rightarrow> nat \<Rightarrow> node \<Rightarrow> bool" where
  "node_ok stop idx bound nd = (if N nd > stop then parent_shape idx bound nd else leaf_shape nd)"

definition leaves :: "int \<Rightarrow> node list \<Rightarrow> node list" where
  "leaves stop oct = filter (\<lambda>nd. \<not> N nd > stop) oct"

text \<open>
  \<open>reaches stop oct q start lo hi pts\<close>: the descent of \<open>Query\<close> for the point \<open>q\<close> from the
  node \<open>start\<close> returns the keys of a leaf with an index in \<open>[lo, hi)\<close>; these keys are
  the joined identifiers of points of \<open>pts\<close>, among them every point of \<open>pts\<close> that lies
  at \<open>q\<close>.
\<close>

definition reaches :: "int \<Rightarrow> node list \<Rightarrow> DataCoords \<Rightarrow> int \<Rightarrow> nat \<Rightarrow> nat \<Rightarrow> DataSet \<Rightarrow> bool" where
  "reaches stop oct q start lo hi pts =
     (\<exists>i sub. descend oct stop q start = Some (Inr (KEYS (oct ! i)))
        \<and> lo \<le> i \<and> i < hi \<and> i < length oct \<and> \<not> N (oct ! i) > stop
        \<and> KEYS (oct ! i) = Join (map fst sub) '',''
        \<and> set sub \<subseteq> set pts \<and> (\<forall>p\<in>set pts. snd p = q \<longrightarrow> p \<in> set sub))"

text \<open>
  \<open>descent_path oct stop q path\<close>: \<open>path\<close> lists the values that \<open>nodeIdx\<close> takes in the
  loop of \<open>Query\<close> for the point \<open>q\<close>, from the first node of \<open>path\<close> on. Every node but
  the last passes the test of the loop (its count is above \<open>stop\<close>) and is followed by the
  link that the body of the loop reads, \<open>CHILDREN[assignOctant(CENTER, q)]\<close>, which is an
  index greater than its own; the last node fails the test, so the loop ends there.
\<close>

fun descent_path :: "node list \<Rightarrow> int \<Rightarrow> DataCoords \<Rightarrow> nat list \<Rightarrow> bool" where
  "descent_path oct stop q [] = False"
| "descent_path oct stop q [i] = (i < length oct \<and> \<not> N (oct ! i) > stop)"
| "descent_path oct stop q (i # j # js) =
     (i < length oct \<and> N (oct ! i) > stop
      \<and> CHILDREN (oct ! i) ! nat (assignOctant (CENTER (oct ! i)) q) = int j
      \<and> i < j \<and> descent_path oct stop q (j # js))"

subsection \<open>What Export writes and what Import reads\<close>










subsection \<open>The geometric-median estimator, as specified\<close>

text \<open>
  The estimator in the words of its specification. One macro-iteration from the guess
  \<open>e0\<close> makes two Weiszfeld steps, \<open>e1\<close> and \<open>e2\<close>, and one Aitken step \<open>e3\<close>. After each
  of the three the estimate is returned when the largest of the absolute differences
  to the estimate before it, over the axes, is below the tolerance. When none has
  converged, the next guess takes on each axis the Aitken value if the differences of
  the three steps on this axis decrease strictly, and the second Weiszfeld value
  otherwise; the counter advances by 3. The estimator fails with
  \<open>MaxIterationsExceeded\<close> once the counter has reached \<open>maxIterations\<close>.
\<close>

definition axis_diff :: "DataCoords \<Rightarrow> DataCoords \<Rightarrow> nat \<Rightarrow> float64" where
  "axis_diff a b k = math_Abs (fsub (axis a k) (axis b k))"

definition max_diff :: "DataCoords \<Rightarrow> DataCoords \<Rightarrow> float64" where
  "max_diff a b = math_Max (axis_diff a b 0) (math_Max (axis_diff a b 1) (axis_diff a b 2))"

definition next_guess_axis ::
  "DataCoords \<Rightarrow> DataCoords \<Rightarrow> DataCoords \<Rightarrow> DataCoords \<Rightarrow> nat \<Rightarrow> float64" where
  "next_guess_axis e0 e1 e2 e3 k =
     (if fgt (axis_diff e1 e0 k) (axis_diff e2 e1 k) \<and> fgt (axis_diff e2 e1 k) (axis_diff e3 e2 k)
      then axis e3 k else axis e2 k)"

definition next_guess :: "DataCoords \<Rightarrow> DataCoords \<Rightarrow> DataCoords \<Rightarrow> DataCoords \<Rightarrow> DataCoords" where
  "next_guess e0 e1 e2 e3 =
     (next_guess_axis e0 e1 e2 e3 0, next_guess_axis e0 e1 e2 e3 1, next_guess_axis e0 e1 e2 e3 2)"

function geomedian_spec :: "int \<Rightarrow> float64 \<Rightarrow> DataSet \<Rightarrow> DataCoords \<Rightarrow> int \<Rightarrow> error + DataCoords" where
  "geomedian_spec maxIterations tol refPoints e0 counter =
     (if maxIterations \<le> counter then Inl MaxIterationsExceeded
      else
        (let e1 = calcWeiszfeldEstimate refPoints e0
         in if flt (max_diff e1 e0) tol then Inr e1
            else
              (let e2 = calcWeiszfeldEstimate refPoints e1
               in if flt (max_diff e2 e1) tol then Inr e2
                  else
                    (let e3 = calcAitkenEstimate [e0, e1, e2]
                     in if flt (max_diff e3 e2) tol then Inr e3
                        else geomedian_spec maxIterations tol refPoints
                               (next_guess e0 e1 e2 e3) (counter + 3)))))"
  by pat_completeness auto
termination
  by (relation "measure (\<lambda>(maxIterations, tol, refPoints, e0, counter).
                  nat (maxIterations - counter))") auto

declare geomedian_spec.simps [simp del]

declare geomedian_loop.simps [simp del]

text \<open>
  The accumulators of a Weiszfeld step: \<open>denom_ok\<close> holds of a sum of reciprocal
  distances of finite points (finite or plus infinity), \<open>degenerate_acc\<close> of the sums
  after a point at distance zero (the denominator is plus infinity and no numerator is
  finite).
\<close>

definition denom_ok :: "float64 \<Rightarrow> bool" where
  "denom_ok d = (d = PosInf \<or> is_finite d)"

definition degenerate_acc :: "float64 \<times> DataCoords \<Rightarrow> bool" where
  "degenerate_acc acc =
     (fst acc = PosInf \<and> \<not> is_finite (axis (snd acc) 0) \<and> \<not> is_finite (axis (snd acc) 1)
      \<and> \<not> is_finite (axis (snd acc) 2))"

subsection \<open>An example\<close>

text \<open>
  Three points on the diagonal, built with the method "Centroid" and termination
  criterion 2: the centroid is (1,1,1), the points A and B fall into octant 0 and the
  point C into octant 7.
\<close>

definition example_env :: env where
  "example_env = \<lparr>MaxIterations = 1000, Tol = Finite (1 / 10 ^ 12), Comma = (\<lambda>n. []),
                   Sprintf_2f = (\<lambda>x. []), maxNodes = 1000000, maxJsonNodes = 1000000\<rparr>"

definition example_points :: DataSet where
  "example_points = [(''A'', (Finite 0, Finite 0, Finite 0)), (''B'', (Finite 1, Finite 1, Finite 1)),
                     (''C'', (Finite 2, Finite 2, Finite 2))]"

definition example_octree :: "node list" where
  "example_octree =
     [\<lparr>N = 3, CENTER = (Finite 1, Finite 1, Finite 1), CHILDREN = [1, 2, 3, 4, 5, 6, 7, 8], KEYS = []\<rparr>,
      blank_node\<lparr>N := 2, KEYS := ''A,B''\<rparr>,
      blank_node, blank_node, blank_node, blank_node, blank_node, blank_node,
      blank_node\<lparr>N := 1, KEYS := ''C''\<rparr>]"

text \<open>
  Three points on a line whose centroid is the middle point, and two points that are
  symmetric about the origin.
\<close>

definition line_points :: DataSet where
  "line_points = [(''A'', (Finite (- 1), Finite 0, Finite 0)), (''B'', (Finite 0, Finite 0, Finite 0)),
                  (''C'', (Finite 1, Finite 0, Finite 0))]"

definition pair_points :: DataSet where
  "pair_points = [(''A'', (Finite (- 1), Finite 0, Finite 0)), (''B'', (Finite 1, Finite 0, Finite 0))]"

section \<open>Properties\<close>

subsection \<open>The builder appends a built block\<close>

lemma set_links_upt:
  "i + length ls \<le> length ch \<Longrightarrow>
   set_links [i..<i + length ls] ls ch = take i ch @ ls @ drop (i + length ls) ch"
proof (induction ls arbitrary: i ch)
  case Nil
  then show ?case by (simp add: set_links_def)
next
  case (Cons l ls)
  have u: "[i..<i + length (l # ls)] = i # [Suc i..<Suc i + length ls]"
    using upt_conv_Cons [of i "i + Suc (length ls)"] by simp
  have "set_links [i..<i + length (l # ls)] (l # ls) ch
        = set_links [Suc i..<Suc i + length ls] ls (ch[i := l])"
    unfolding u by (simp add: set_links_def)
  also have "\<dots> = take (Suc i) (ch[i := l]) @ ls @ drop (Suc i + length ls) (ch[i := l])"
    using Cons.prems by (intro Cons.IH) simp
  also have "\<dots> = take i ch @ (l # ls) @ drop (i + length (l # ls)) ch"
    using Cons.prems by (simp add: take_Suc_conv_app_nth)
  finally show ?case .
qed

lemma set_links_all:
  "length ls = 8 \<Longrightarrow> set_links [0..<8] ls (replicate 8 0) = ls"
  using set_links_upt [of 0 ls "replicate 8 0"] by simp

lemma segregate_length_aux:
  "length (foldl (\<lambda>childPts kv.
              childPts[nat (assignOctant center (snd kv)) :=
                         childPts ! nat (assignOctant center (snd kv)) @ [kv]]) init pts) = length init"
  by (induction pts arbitrary: init) simp_all

lemma length_segregate: "length (segregate c pts) = 8"
  by (simp add: segregate_def segregate_length_aux)

lemma create_children_built:
  assumes IH: "\<And>pts b b'. bld pts b = Some (Inr b') \<Longrightarrow> masterNodeIdx b = length (tree b) \<Longrightarrow>
     \<exists>blk. tree b' = tree b @ blk \<and> built calc stop (length (tree b)) pts blk
           \<and> masterNodeIdx b' + 1 = length (tree b')"
  shows "create_children bld this cps ks b = Some (Inr b') \<Longrightarrow>
         masterNodeIdx b + 1 = length (tree b) \<Longrightarrow> this < length (tree b) \<Longrightarrow>
         \<exists>blk links. tree b' = (tree b)[this := (tree b ! this)
                         \<lparr>CHILDREN := set_links ks links (CHILDREN (tree b ! this))\<rparr>] @ blk
           \<and> length links = length ks
           \<and> built_children calc stop (length (tree b)) (map (\<lambda>k. cps ! k) ks) blk links
           \<and> masterNodeIdx b' + 1 = length (tree b')"
proof (induction ks arbitrary: b)
  case Nil
  then show ?case by (auto simp: set_links_def intro: built_built_children.nil)
next
  case (Cons k ks)
  let ?b1 = "b\<lparr>masterNodeIdx := masterNodeIdx b + 1,
                   tree := (tree b)[this := (tree b ! this)
                              \<lparr>CHILDREN := (CHILDREN (tree b ! this))
                                             [k := int (masterNodeIdx b + 1)]\<rparr>]\<rparr>"
  from Cons.prems obtain b2 where
    c1: "bld (cps ! k) ?b1 = Some (Inr b2)" and
    c2: "create_children bld this cps ks b2 = Some (Inr b')"
    by (auto split: option.splits sum.splits)
  from IH [OF c1] Cons.prems(2) obtain blk1 where
    t2: "tree b2 = tree ?b1 @ blk1" and
    bl1: "built calc stop (length (tree b)) (cps ! k) blk1" and
    m2: "masterNodeIdx b2 + 1 = length (tree b2)"
    by auto
  have th2: "this < length (tree b2)" using t2 Cons.prems(3) by simp
  from Cons.IH [OF c2 m2 th2] obtain blk2 links2 where
    t': "tree b' = (tree b2)[this := (tree b2 ! this)
                         \<lparr>CHILDREN := set_links ks links2 (CHILDREN (tree b2 ! this))\<rparr>] @ blk2" and
    len: "length links2 = length ks" and
    bl2: "built_children calc stop (length (tree b2)) (map (\<lambda>k. cps ! k) ks) blk2 links2" and
    m': "masterNodeIdx b' + 1 = length (tree b')"
    by blast
  have l2: "length (tree b2) = length (tree b) + length blk1" using t2 by simp
  have n2: "tree b2 ! this = (tree b ! this)
              \<lparr>CHILDREN := (CHILDREN (tree b ! this))[k := int (masterNodeIdx b + 1)]\<rparr>"
    using t2 Cons.prems(3) by (simp add: nth_append)
  have "tree b' = (tree b)[this := (tree b ! this)
           \<lparr>CHILDREN := set_links (k # ks) (int (length (tree b)) # links2) (CHILDREN (tree b ! this))\<rparr>]
           @ (blk1 @ blk2)"
    using Cons.prems(2,3) by (simp add: t' t2 nth_append list_update_append set_links_def)
  moreover have "built_children calc stop (length (tree b)) (map (\<lambda>k. cps ! k) (k # ks))
                   (blk1 @ blk2) (int (length (tree b)) # links2)"
    using bl1 bl2 by (simp add: l2 built_built_children.cons)
  ultimately show ?case using len m' by (intro exI [of _ "blk1 @ blk2"] exI [of _ "int (length (tree b)) # links2"]) simp
qed

lemma builder_built:
  "builder calc stop fuel pts b = Some (Inr b') \<Longrightarrow> masterNodeIdx b = length (tree b) \<Longrightarrow>
   \<exists>blk. tree b' = tree b @ blk \<and> built calc stop (length (tree b)) pts blk
         \<and> masterNodeIdx b' + 1 = length (tree b')"
proof (induction fuel arbitrary: pts b b')
  case 0
  then show ?case by simp
next
  case (Suc fuel)
  show ?case
  proof (cases "int (length pts) \<le> stop")
    case True
    with Suc.prems show ?thesis
      by (auto simp: Let_def nth_append intro!: built_built_children.leaf)
  next
    case False
    with Suc.prems obtain c where c: "calc pts = Inr c" and
      cc: "create_children (builder calc stop fuel) (length (tree b)) (segregate c pts) [0..<8]
             (b\<lparr>tree := tree b @ [blank_node\<lparr>N := int (length pts), CENTER := c\<rparr>]\<rparr>) = Some (Inr b')"
      by (auto simp: Let_def nth_append split: sum.splits)
    let ?b0 = "b\<lparr>tree := tree b @ [blank_node\<lparr>N := int (length pts), CENTER := c\<rparr>]\<rparr>"
    have "\<exists>blk links. tree b' = (tree ?b0)[length (tree b) := (tree ?b0 ! length (tree b))
                         \<lparr>CHILDREN := set_links [0..<8] links (CHILDREN (tree ?b0 ! length (tree b)))\<rparr>] @ blk
           \<and> length links = length [0..<8]
           \<and> built_children calc stop (length (tree ?b0)) (map (\<lambda>k. segregate c pts ! k) [0..<8]) blk links
           \<and> masterNodeIdx b' + 1 = length (tree b')"
      using Suc.prems(2) by (intro create_children_built [OF _ cc]) (auto dest: Suc.IH)
    then obtain blk links where
      t': "tree b' = (tree ?b0)[length (tree b) := (tree ?b0 ! length (tree b))
                         \<lparr>CHILDREN := set_links [0..<8] links (CHILDREN (tree ?b0 ! length (tree b)))\<rparr>] @ blk" and
      len: "length links = 8" and
      bc: "built_children calc stop (length (tree ?b0)) (map (\<lambda>k. segregate c pts ! k) [0..<8]) blk links" and
      m': "masterNodeIdx b' + 1 = length (tree b')"
      by auto
    have seg: "map (\<lambda>k. segregate c pts ! k) [0..<8] = segregate c pts"
      using map_nth [of "segregate c pts"] by (simp add: length_segregate)
    have "tree b' = tree b @ (blank_node\<lparr>N := int (length pts), CENTER := c, CHILDREN := links\<rparr> # blk)"
      using len by (simp add: t' set_links_all blank_node_def)
    moreover have "built calc stop (length (tree b)) pts
                     (blank_node\<lparr>N := int (length pts), CENTER := c, CHILDREN := links\<rparr> # blk)"
      using False c bc by (intro built_built_children.parent) (simp_all add: seg)
    ultimately show ?thesis using m' by blast
  qed
qed


subsection \<open>The depth of recursion\<close>

text \<open>
  What the builder and \<open>Make\<close> return with some depth of recursion they return with
  every greater depth: the result of a build that returns is one.
\<close>

lemma create_children_mono:
  assumes "\<And>pts b r. bld pts b = Some r \<Longrightarrow> bld' pts b = Some r"
  shows "create_children bld this cps ks b = Some r \<Longrightarrow>
         create_children bld' this cps ks b = Some r"
proof (induction ks arbitrary: b)
  case Nil
  then show ?case by simp
next
  case (Cons k ks)
  let ?b1 = "b\<lparr>masterNodeIdx := masterNodeIdx b + 1,
                   tree := (tree b)[this := (tree b ! this)
                              \<lparr>CHILDREN := (CHILDREN (tree b ! this))
                                             [k := int (masterNodeIdx b + 1)]\<rparr>]\<rparr>"
  show ?case
  proof (cases "this < length (tree b)")
    case False
    with Cons.prems show ?thesis by simp
  next
    case True
    show ?thesis
    proof (cases "bld (cps ! k) ?b1")
      case None
      with Cons.prems True show ?thesis by simp
    next
      case (Some x)
      from assms [OF Some] have s': "bld' (cps ! k) ?b1 = Some x" .
      show ?thesis
      proof (cases x)
        case (Inl err)
        with Cons.prems True Some s' show ?thesis by auto
      next
        case (Inr b')
        with Cons.prems True Some have "create_children bld this cps ks b' = Some r" by simp
        from Cons.IH [OF this] True s' Inr show ?thesis by simp
      qed
    qed
  qed
qed

lemma builder_not_parent:
  "\<not> (masterNodeIdx b < length (tree b @ [blank_node]) \<and> \<not> int (length pts) \<le> stop
      \<and> (\<exists>center. calc pts = Inr center)) \<Longrightarrow>
   builder calc stop (Suc n) pts b = builder calc stop (Suc 0) pts b"
  by (auto simp: Let_def split: sum.splits)

lemma builder_parent:
  "masterNodeIdx b < length (tree b @ [blank_node]) \<Longrightarrow> \<not> int (length pts) \<le> stop \<Longrightarrow>
   calc pts = Inr center \<Longrightarrow>
   builder calc stop (Suc n) pts b
   = create_children (builder calc stop n) (masterNodeIdx b) (segregate center pts) [0..<8]
       (b\<lparr>tree := (let oct = (tree b @ [blank_node])
                        [masterNodeIdx b := ((tree b @ [blank_node]) ! masterNodeIdx b)
                                             \<lparr>N := int (length pts)\<rparr>]
                    in oct[masterNodeIdx b := (oct ! masterNodeIdx b)\<lparr>CENTER := center\<rparr>])\<rparr>)"
  by (simp add: Let_def)

lemma builder_fuel_Suc:
  "builder calc stop fuel pts b = Some r \<Longrightarrow> builder calc stop (Suc fuel) pts b = Some r"
proof (induction fuel arbitrary: pts b r)
  case 0
  then show ?case by simp
next
  case (Suc fuel)
  show ?case
  proof (cases "masterNodeIdx b < length (tree b @ [blank_node]) \<and> \<not> int (length pts) \<le> stop
                \<and> (\<exists>center. calc pts = Inr center)")
    case False
    from False builder_not_parent [where calc = calc and pts = pts and b = b and stop = stop
        and n = fuel]
      builder_not_parent [where calc = calc and pts = pts and b = b and stop = stop
        and n = "Suc fuel"]
      Suc.prems show ?thesis by (simp del: builder.simps)
  next
    case True
    then obtain center where c: "calc pts = Inr center" by blast
    from True have t: "masterNodeIdx b < length (tree b @ [blank_node])"
      "\<not> int (length pts) \<le> stop" by simp_all
    show ?thesis
      using Suc.prems
      unfolding builder_parent [where calc = calc, OF t c, of fuel]
        builder_parent [where calc = calc, OF t c, of "Suc fuel"]
      by (rule create_children_mono [rotated]) (rule Suc.IH)
  qed
qed

lemma builder_fuel_mono:
  "fuel \<le> fuel' \<Longrightarrow> builder calc stop fuel pts b = Some r \<Longrightarrow>
   builder calc stop fuel' pts b = Some r"
  by (induction fuel' rule: dec_induct) (simp_all add: builder_fuel_Suc del: builder.simps)

lemma Make_fuel_mono:
  assumes "fuel \<le> fuel'" and "Make e fuel elapsed meth terminal_N refPoints st = Some r"
  shows "Make e fuel' elapsed meth terminal_N refPoints st = Some r"
proof (cases "makeCalcCenter e meth")
  case (Inl err)
  with assms(2) show ?thesis by (auto simp: Make_def makeBuilder_def split: if_splits)
next
  case (Inr calc)
  show ?thesis
  proof (cases "builder calc terminal_N fuel refPoints \<lparr>tree = [], masterNodeIdx = 0, current = 0\<rparr>")
    case None
    with assms(2) Inr show ?thesis by (auto simp: Make_def makeBuilder_def split: if_splits)
  next
    case (Some x)
    from builder_fuel_mono [OF assms(1) Some] assms(2) Inr Some show ?thesis
      by (auto simp: Make_def makeBuilder_def split: if_splits)
  qed
qed

subsection \<open>Octant assignment\<close>

lemma fgt_irrefl: "\<not> fgt x x"
  by (cases x) (simp_all add: fgt_def)

lemma assignOctant_cases:
  "assignOctant c p =
     (if fgt (axis p 0) (axis c 0) then 1 else 0) +
     (if fgt (axis p 1) (axis c 1) then 2 else 0) +
     (if fgt (axis p 2) (axis c 2) then 4 else 0)"
  by (simp add: assignOctant_def axes_def)

lemma assignOctant_range: "0 \<le> assignOctant c p \<and> assignOctant c p \<le> 7"
  by (simp add: assignOctant_cases)

subsection \<open>Shape, leaf counts and descent of a built block\<close>

lemma node_ok_mono: "node_ok stop idx bound nd \<Longrightarrow> bound \<le> bound' \<Longrightarrow> node_ok stop idx bound' nd"
  by (fastforce simp: node_ok_def parent_shape_def list_all_iff)

lemma built_nodes_ok:
  "built calc stop base pts blk \<Longrightarrow>
     blk \<noteq> [] \<and> (\<forall>i<length blk. node_ok stop (base + i) (base + length blk) (blk ! i))"
  and built_children_nodes_ok:
  "built_children calc stop base ps blk links \<Longrightarrow>
     length links = length ps
     \<and> list_all (\<lambda>l. int base \<le> l \<and> l < int (base + length blk)) links
     \<and> (\<forall>i<length blk. node_ok stop (base + i) (base + length blk) (blk ! i))"
proof (induct rule: built_built_children.inducts)
  case (leaf pts base)
  have "leaf_shape (blank_node\<lparr>N := int (length pts), KEYS := Join (map fst pts) '',''\<rparr>)"
    unfolding leaf_shape_def by (auto simp: blank_node_def intro: exI [of _ "map fst pts"])
  with leaf show ?case by (simp add: node_ok_def)
next
  case (parent pts c base blk links)
  have len8: "length links = 8" using parent by (simp add: length_segregate)
  have "parent_shape base (base + length (blank_node\<lparr>N := int (length pts), CENTER := c, CHILDREN := links\<rparr> # blk))
          (blank_node\<lparr>N := int (length pts), CENTER := c, CHILDREN := links\<rparr>)"
    using parent len8 by (auto simp: parent_shape_def blank_node_def list_all_iff)
  then have hd: "node_ok stop base (Suc (base + length blk))
                   (blank_node\<lparr>N := int (length pts), CENTER := c, CHILDREN := links\<rparr>)"
    using parent by (simp add: node_ok_def)
  show ?case
  proof (intro conjI allI impI)
    fix i assume "i < length (blank_node\<lparr>N := int (length pts), CENTER := c, CHILDREN := links\<rparr> # blk)"
    then show "node_ok stop (base + i)
        (base + length (blank_node\<lparr>N := int (length pts), CENTER := c, CHILDREN := links\<rparr> # blk))
        ((blank_node\<lparr>N := int (length pts), CENTER := c, CHILDREN := links\<rparr> # blk) ! i)"
      using hd parent by (cases i) auto
  qed simp
next
  case (nil base)
  then show ?case by simp
next
  case (cons base p b ps bs ls)
  have nb: "b \<noteq> []" using cons by simp
  show ?case
  proof (intro conjI allI impI)
    show "length (int base # ls) = length (p # ps)" using cons by simp
    have "list_all (\<lambda>l. int (base + length b) \<le> l \<and> l < int (base + length b + length bs)) ls"
      using cons by simp
    moreover have "1 \<le> int (length b)" using nb by (cases b) simp_all
    ultimately show "list_all (\<lambda>l. int base \<le> l \<and> l < int (base + length (b @ bs))) (int base # ls)"
      by (auto simp: list_all_iff)
    fix i assume i: "i < length (b @ bs)"
    show "node_ok stop (base + i) (base + length (b @ bs)) ((b @ bs) ! i)"
    proof (cases "i < length b")
      case True
      then have "node_ok stop (base + i) (base + length b) (b ! i)" using cons by simp
      then show ?thesis using True by (simp add: nth_append node_ok_mono)
    next
      case False
      then have "i - length b < length bs" using i by simp
      then have "node_ok stop (base + length b + (i - length b)) (base + length b + length bs) (bs ! (i - length b))"
        using cons by simp
      then show ?thesis using False by (simp add: nth_append add.assoc)
    qed
  qed
qed

lemma assignOctant_nat_less: "nat (assignOctant c p) < 8"
  using assignOctant_range [of c p] by linarith

lemma segregate_nth_aux:
  "length init = 8 \<Longrightarrow> k < 8 \<Longrightarrow>
   foldl (\<lambda>childPts kv.
              childPts[nat (assignOctant center (snd kv)) :=
                         childPts ! nat (assignOctant center (snd kv)) @ [kv]]) init pts ! k
   = init ! k @ filter (\<lambda>kv. nat (assignOctant center (snd kv)) = k) pts"
proof (induction pts arbitrary: init)
  case Nil
  then show ?case by simp
next
  case (Cons kv pts)
  let ?o = "nat (assignOctant center (snd kv))"
  have o: "?o < length init" using Cons.prems assignOctant_nat_less by simp
  have "length (init[?o := init ! ?o @ [kv]]) = 8" using Cons.prems by simp
  from Cons.IH [OF this Cons.prems(2)] show ?case
    using o Cons.prems by (auto simp: nth_list_update)
qed

lemma segregate_nth:
  "k < 8 \<Longrightarrow> segregate c pts ! k = filter (\<lambda>kv. nat (assignOctant c (snd kv)) = k) pts"
  by (simp add: segregate_def segregate_nth_aux)

lemma sum_length_update:
  "i < length xs \<Longrightarrow> sum_list (map length (xs[i := xs ! i @ [x]])) = Suc (sum_list (map length xs))"
  by (induction xs arbitrary: i) (auto split: nat.splits)

lemma segregate_sum_aux:
  "length init = 8 \<Longrightarrow>
   sum_list (map length (foldl (\<lambda>childPts kv.
              childPts[nat (assignOctant center (snd kv)) :=
                         childPts ! nat (assignOctant center (snd kv)) @ [kv]]) init pts))
   = sum_list (map length init) + length pts"
proof (induction pts arbitrary: init)
  case Nil
  then show ?case by simp
next
  case (Cons kv pts)
  let ?o = "nat (assignOctant center (snd kv))"
  have o: "?o < length init" using Cons.prems assignOctant_nat_less by simp
  have "length (init[?o := init ! ?o @ [kv]]) = 8" using Cons.prems by simp
  from Cons.IH [OF this] show ?case using o by (simp add: sum_length_update)
qed

lemma segregate_sum: "sum_list (map length (segregate c pts)) = length pts"
  by (simp add: segregate_def segregate_sum_aux)

lemma built_leaf_total:
  "built calc stop base pts blk \<Longrightarrow> sum_list (map N (leaves stop blk)) = int (length pts)"
  and built_children_leaf_total:
  "built_children calc stop base ps blk links \<Longrightarrow>
     sum_list (map N (leaves stop blk)) = int (sum_list (map length ps))"
proof (induct rule: built_built_children.inducts)
  case (leaf pts base)
  then show ?case by (simp add: leaves_def)
next
  case (parent pts c base blk links)
  then show ?case by (simp add: leaves_def segregate_sum)
next
  case (nil base)
  then show ?case by (simp add: leaves_def)
next
  case (cons base p b ps bs ls)
  then show ?case by (simp add: leaves_def)
qed

lemma reaches_leaf:
  "i < length oct \<Longrightarrow> \<not> N (oct ! i) > stop \<Longrightarrow> KEYS (oct ! i) = Join (map fst pts) '','' \<Longrightarrow>
   reaches stop oct q (int i) i (Suc i) pts"
  unfolding reaches_def
  by (rule exI [of _ i], rule exI [of _ pts], subst descend.simps) simp

lemma reaches_parent:
  assumes i: "i < length oct" and p: "N (oct ! i) > stop"
    and r: "reaches stop oct q (CHILDREN (oct ! i) ! nat (assignOctant (CENTER (oct ! i)) q)) lo hi
              (segregate (CENTER (oct ! i)) pts ! nat (assignOctant (CENTER (oct ! i)) q))"
  shows "reaches stop oct q (int i) lo hi pts"
proof -
  let ?k = "nat (assignOctant (CENTER (oct ! i)) q)"
  have sg: "segregate (CENTER (oct ! i)) pts ! ?k
            = filter (\<lambda>kv. nat (assignOctant (CENTER (oct ! i)) (snd kv)) = ?k) pts"
    by (rule segregate_nth) (rule assignOctant_nat_less)
  from r obtain j sub where
    d: "descend oct stop q (CHILDREN (oct ! i) ! ?k) = Some (Inr (KEYS (oct ! j)))" and
    b: "lo \<le> j" "j < hi" "j < length oct" "\<not> N (oct ! j) > stop"
       "KEYS (oct ! j) = Join (map fst sub) '',''" and
    s1: "set sub \<subseteq> set (segregate (CENTER (oct ! i)) pts ! ?k)" and
    s2: "\<forall>p\<in>set (segregate (CENTER (oct ! i)) pts ! ?k). snd p = q \<longrightarrow> p \<in> set sub"
    unfolding reaches_def by blast
  have "descend oct stop q (int i) = Some (Inr (KEYS (oct ! j)))"
    using i p d by (subst descend.simps) simp
  moreover have "set sub \<subseteq> set pts" using s1 by (auto simp: sg)
  moreover have "\<forall>p\<in>set pts. snd p = q \<longrightarrow> p \<in> set sub" using s2 by (auto simp: sg)
  ultimately show ?thesis unfolding reaches_def using b by blast
qed

lemma reaches_mono:
  "reaches stop oct q start lo hi pts \<Longrightarrow> lo' \<le> lo \<Longrightarrow> hi \<le> hi' \<Longrightarrow>
   reaches stop oct q start lo' hi' pts"
  unfolding reaches_def by (meson le_trans less_le_trans)

lemma built_reaches:
  "built calc stop base pts blk \<Longrightarrow> length pre = base \<Longrightarrow>
     reaches stop (pre @ blk @ post) q (int base) base (base + length blk) pts"
  and built_children_reaches:
  "built_children calc stop base ps blk links \<Longrightarrow> length pre = base \<Longrightarrow>
     \<forall>k<length ps. reaches stop (pre @ blk @ post) q (links ! k) base (base + length blk) (ps ! k)"
proof (induct arbitrary: pre post and pre post rule: built_built_children.inducts)
  case (leaf pts base)
  let ?nd = "blank_node\<lparr>N := int (length pts), KEYS := Join (map fst pts) '',''\<rparr>"
  have "reaches stop (pre @ [?nd] @ post) q (int base) base (Suc base) pts"
    using leaf by (intro reaches_leaf) (simp_all add: nth_append)
  then show ?case by simp
next
  case (parent pts c base blk links)
  let ?nd = "blank_node\<lparr>N := int (length pts), CENTER := c, CHILDREN := links\<rparr>"
  let ?oct = "pre @ (?nd # blk) @ post"
  let ?k = "nat (assignOctant c q)"
  have nd: "?oct ! base = ?nd" using parent.prems by (simp add: nth_append)
  have "length (pre @ [?nd]) = Suc base" using parent.prems by simp
  from parent.hyps(4) [OF this, of post]
  have "reaches stop ?oct q (links ! ?k) (Suc base) (Suc base + length blk) (segregate c pts ! ?k)"
    by (simp add: length_segregate assignOctant_nat_less)
  then have "reaches stop ?oct q (int base) (Suc base) (Suc base + length blk) pts"
    using parent.hyps(1) parent.prems by (intro reaches_parent) (simp_all add: nth_append)
  then show ?case by (rule reaches_mono) simp_all
next
  case (nil base)
  then show ?case by simp
next
  case (cons base p b ps bs ls)
  show ?case
  proof (intro allI impI)
    fix k assume k: "k < length (p # ps)"
    show "reaches stop (pre @ (b @ bs) @ post) q ((int base # ls) ! k) base
            (base + length (b @ bs)) ((p # ps) ! k)"
    proof (cases k)
      case 0
      have "reaches stop (pre @ b @ (bs @ post)) q (int base) base (base + length b) p"
        by (rule cons.hyps(2) [OF cons.prems])
      then show ?thesis using 0 by (auto intro: reaches_mono)
    next
      case (Suc k')
      have "length (pre @ b) = base + length b" using cons.prems by simp
      from cons.hyps(4) [OF this, of post] Suc k
      have "reaches stop ((pre @ b) @ bs @ post) q (ls ! k') (base + length b)
              (base + length b + length bs) (ps ! k')" by simp
      then show ?thesis using Suc by (auto intro: reaches_mono)
    qed
  qed
qed

lemma calcStats_Inr:
  "calcStats e st = Inr st' \<Longrightarrow>
     octree st' = octree st \<and> octree st \<noteq> [] \<and> HOW (stats st') = HOW (stats st)
     \<and> SIZE (stats st') = SIZE (stats st) \<and> STOP (stats st') = STOP (stats st)
     \<and> TIME (stats st') = TIME (stats st)"
  by (auto simp: calcStats_def Let_def split: if_splits)

lemma tally_leafCounts:
  "leafCounts (foldl (tally_node stop) t oct) = leafCounts t @ map N (leaves stop oct)"
  by (induction oct arbitrary: t) (simp_all add: leaves_def tally_node_def)

lemma calcStats_LEAFCOUNTS:
  "calcStats e st = Inr st' \<Longrightarrow> LEAFCOUNTS (stats st') = map N (leaves (STOP (stats st)) (octree st))"
  by (auto simp: calcStats_def Let_def tally_leafCounts split: if_splits)

lemma Make_built:
  "Make e fuel elapsed meth terminal_N refPoints st0 = Some (Inr st) \<Longrightarrow>
   \<exists>calc. makeCalcCenter e meth = Inr calc \<and> built calc terminal_N 0 refPoints (octree st)
     \<and> 1 < terminal_N \<and> refPoints \<noteq> []
     \<and> HOW (stats st) = meth \<and> STOP (stats st) = terminal_N \<and> TIME (stats st) = elapsed
     \<and> SIZE (stats st) = int (length (octree st))
     \<and> LEAFCOUNTS (stats st) = map N (leaves terminal_N (octree st))"
proof -
  assume m: "Make e fuel elapsed meth terminal_N refPoints st0 = Some (Inr st)"
  then have t: "1 < terminal_N" and ne: "refPoints \<noteq> []"
    by (auto simp: Make_def split: if_splits)
  from m t ne obtain calc b where
    c: "makeCalcCenter e meth = Inr calc" and
    b: "builder calc terminal_N fuel refPoints \<lparr>tree = [], masterNodeIdx = 0, current = 0\<rparr> = Some (Inr b)" and
    s: "calcStats e \<lparr>octree = tree b,
                     stats = (stats st0)\<lparr>HOW := meth, STOP := terminal_N, TIME := elapsed,
                                         SIZE := int (length (tree b))\<rparr>\<rparr> = Inr st"
    by (auto simp: Make_def makeBuilder_def split: if_splits sum.splits option.splits)
  from builder_built [OF b] have "built calc terminal_N 0 refPoints (tree b)" by auto
  with calcStats_Inr [OF s] calcStats_LEAFCOUNTS [OF s] c t ne show ?thesis by auto
qed

subsection \<open>The example build\<close>

lemma upt_8: "[0..<8] = [0, 1, 2, 3, 4, 5, 6, 7]"
  by (simp add: upt_rec)

lemma example_centroid: "calcCentroid example_points = (Finite 1, Finite 1, Finite 1)"
  by (simp add: calcCentroid_def example_points_def axes_def zero_coords_def float64_of_int_def)

lemma example_segregate:
  "segregate (Finite 1, Finite 1, Finite 1) example_points =
     [[(''A'', (Finite 0, Finite 0, Finite 0)), (''B'', (Finite 1, Finite 1, Finite 1))], [], [], [], [], [], [],
      [(''C'', (Finite 2, Finite 2, Finite 2))]]"
  by (simp add: segregate_def example_points_def assignOctant_cases fgt_def numeral_eq_Suc)

lemma example_builder:
  "builder (\<lambda>refPoints. Inr (calcCentroid refPoints)) 2 2 example_points
     \<lparr>tree = [], masterNodeIdx = 0, current = 0\<rparr>
   = Some (Inr \<lparr>tree = example_octree, masterNodeIdx = 8, current = 3\<rparr>)"
  apply (simp add: numeral_2_eq_2 Let_def example_centroid example_segregate upt_8)
  apply (simp add: example_points_def example_octree_def blank_node_def numeral_eq_Suc)
  done

lemma example_Make:
  "\<exists>st. Make example_env 2 0 ''Centroid'' 2 example_points initial_state = Some (Inr st)
     \<and> octree st = example_octree \<and> SIZE (stats st) = 9 \<and> STOP (stats st) = 2"
proof -
  have len: "length example_points = 3" by (simp add: example_points_def)
  have "Make example_env 2 0 ''Centroid'' 2 example_points initial_state
        = Some (calcStats example_env
             \<lparr>octree = example_octree,
              stats = (stats initial_state)\<lparr>HOW := ''Centroid'', STOP := 2, TIME := 0, SIZE := 9\<rparr>\<rparr>)"
    by (simp add: Make_def makeBuilder_def makeCalcCenter_def example_builder len)
       (simp add: example_octree_def)
  moreover have "example_octree \<noteq> []" by (simp add: example_octree_def)
  ultimately show ?thesis by (simp add: calcStats_def Let_def)
qed

subsection \<open>What a returning Make establishes\<close>

lemma built_first:
  "built calc stop base pts blk \<Longrightarrow> N (blk ! 0) = int (length pts)"
  by (cases rule: built.cases) auto

lemma parent_not_leaf: "parent_shape idx bound nd \<Longrightarrow> \<not> leaf_shape nd"
  by (auto simp: parent_shape_def leaf_shape_def list_all_iff)

lemma Make_nodes_ok:
  assumes "Make e fuel elapsed meth terminal_N refPoints st0 = Some (Inr st)"
  shows "octree st \<noteq> []" and "SIZE (stats st) = int (length (octree st))"
    and "STOP (stats st) = terminal_N"
    and "i < length (octree st) \<Longrightarrow> node_ok terminal_N i (length (octree st)) (octree st ! i)"
proof -
  from Make_built [OF assms] obtain calc where
    b: "built calc terminal_N 0 refPoints (octree st)" and
    s: "STOP (stats st) = terminal_N" "SIZE (stats st) = int (length (octree st))"
    by blast
  from built_nodes_ok [OF b] show "octree st \<noteq> []" by simp
  from s show "SIZE (stats st) = int (length (octree st))" "STOP (stats st) = terminal_N" by simp_all
  assume "i < length (octree st)"
  with built_nodes_ok [OF b] show "node_ok terminal_N i (length (octree st)) (octree st ! i)" by simp
qed

lemma Make_reaches:
  assumes "Make e fuel elapsed meth terminal_N refPoints st0 = Some (Inr st)"
  shows "reaches (STOP (stats st)) (octree st) q 0 0 (length (octree st)) refPoints"
proof -
  from Make_built [OF assms] obtain calc where
    b: "built calc terminal_N 0 refPoints (octree st)" and s: "STOP (stats st) = terminal_N"
    by blast
  from built_reaches [OF b, of "[]" "[]" q] s show ?thesis by simp
qed

lemma descend_path:
  assumes ok: "\<And>i. i < length oct \<Longrightarrow> node_ok stop i (length oct) (oct ! i)"
  shows "i < length oct \<Longrightarrow>
         \<exists>path. descent_path oct stop q (i # path)
            \<and> descend oct stop q (int i) = Some (Inr (KEYS (oct ! last (i # path))))"
proof (induction "length oct - i" arbitrary: i rule: less_induct)
  case less
  show ?case
  proof (cases "N (oct ! i) > stop")
    case False
    have "descent_path oct stop q [i]" using less.prems False by simp
    moreover have "descend oct stop q (int i) = Some (Inr (KEYS (oct ! i)))"
      using less.prems False by (subst descend.simps) simp
    ultimately show ?thesis by (intro exI [of _ "[]"]) simp
  next
    case True
    let ?k = "nat (assignOctant (CENTER (oct ! i)) q)"
    let ?c = "CHILDREN (oct ! i) ! ?k"
    from ok [OF less.prems] True have ps: "parent_shape i (length oct) (oct ! i)"
      by (simp add: node_ok_def)
    then have "?k < length (CHILDREN (oct ! i))"
      using assignOctant_nat_less by (simp add: parent_shape_def)
    then have "?c \<in> set (CHILDREN (oct ! i))" by simp
    with ps have c: "int i < ?c" "?c < int (length oct)"
      by (auto simp: parent_shape_def list_all_iff)
    define j where "j = nat ?c"
    have j: "?c = int j" "i < j" "j < length oct" using c by (simp_all add: j_def)
    have "length oct - j < length oct - i" using j by simp
    from less.hyps [OF this j(3)] obtain path where
      p: "descent_path oct stop q (j # path)" and
      d: "descend oct stop q (int j) = Some (Inr (KEYS (oct ! last (j # path))))"
      by blast
    have "descent_path oct stop q (i # j # path)" using p j less.prems True by simp
    moreover have "descend oct stop q (int i) = descend oct stop q (int j)"
      using less.prems True j(1) by (subst descend.simps) simp
    ultimately show ?thesis using d by (intro exI [of _ "j # path"]) simp
  qed
qed

lemma Make_descent_path:
  assumes "Make e fuel elapsed meth terminal_N refPoints st0 = Some (Inr st)"
  shows "\<exists>path. descent_path (octree st) (STOP (stats st)) q (0 # path)
           \<and> descend (octree st) (STOP (stats st)) q 0
               = Some (Inr (KEYS (octree st ! last (0 # path))))"
proof -
  have "0 < length (octree st)" using Make_nodes_ok(1) [OF assms] by simp
  from descend_path [of "octree st" "STOP (stats st)" 0 q, OF _ this]
    Make_nodes_ok(3,4) [OF assms]
  show ?thesis by simp
qed

lemma example_Query:
  "descend example_octree 2 (Finite 0, Finite 0, Finite 0) 0 = Some (Inr ''A,B'')"
  by (simp add: descend.simps example_octree_def blank_node_def assignOctant_cases fgt_def)

subsection \<open>Export and Import\<close>









subsection \<open>The text of the strings of a built octree\<close>
















subsection \<open>Import of a decoded file\<close>











subsection \<open>A build whose export does not read back\<close>


subsection \<open>The geometric-median estimator\<close>

lemma foldl_set_axis:
  "foldl (\<lambda>d k. set_axis d k (f k)) d axes = (f 0, f 1, f 2)"
  by (cases d) (simp add: axes_def)

lemma foldl_set_axis_if:
  "foldl (\<lambda>d k. if c k then set_axis d k (f k) else set_axis d k (g k)) d axes
   = (if c 0 then f 0 else g 0, if c 1 then f 1 else g 1, if c 2 then f 2 else g 2)"
  by (cases d) (simp add: axes_def)

lemma list4_update:
  "[w, x, y, z][0 := v] = [v, x, y, z]" "[w, x, y, z][1 := v] = [w, v, y, z]"
  "[w, x, y, z][2 := v] = [w, x, v, z]" "[w, x, y, z][3 := v] = [w, x, y, v]"
  by (simp_all add: eval_nat_numeral)

lemma list4_nth:
  "[w, x, y, z] ! 0 = w" "[w, x, y, z] ! 1 = x" "[w, x, y, z] ! 2 = y" "[w, x, y, z] ! 3 = z"
  by simp_all

lemma list4_take: "take 3 [w, x, y, z] = [w, x, y]"
  by (simp add: eval_nat_numeral)

lemma geomedian_substeps_unrolled:
  "geomedian_substeps refPoints tol [1, 2, 3] [e0, a, b, c] [d0, d1, d2, d3] =
     (let e1 = calcWeiszfeldEstimate refPoints e0
      in if flt (max_diff e1 e0) tol then Inl e1
         else
           (let e2 = calcWeiszfeldEstimate refPoints e1
            in if flt (max_diff e2 e1) tol then Inl e2
               else
                 (let e3 = calcAitkenEstimate [e0, e1, e2]
                  in if flt (max_diff e3 e2) tol then Inl e3
                     else Inr ([e0, e1, e2, e3],
                               [d0,
                                (axis_diff e1 e0 0, axis_diff e1 e0 1, axis_diff e1 e0 2),
                                (axis_diff e2 e1 0, axis_diff e2 e1 1, axis_diff e2 e1 2),
                                (axis_diff e3 e2 0, axis_diff e3 e2 1, axis_diff e3 e2 2)]))))"
  by (simp add: Let_def foldl_set_axis list4_update list4_nth list4_take max_diff_def axis_diff_def
        del: axis.simps)
     (simp add: Let_def)

lemma geomedian_loop_refines:
  "geomedian_loop maxIterations tol refPoints [e0, a, b, c] [d0, d1, d2, d3] counter
   = geomedian_spec maxIterations tol refPoints e0 counter"
proof (induction "nat (maxIterations - counter)" arbitrary: e0 a b c d0 d1 d2 d3 counter
        rule: less_induct)
  case less
  show ?case
  proof (cases "counter < maxIterations")
    case False
    then show ?thesis
      by (subst geomedian_loop.simps, subst geomedian_spec.simps) simp
  next
    case True
    then have m: "nat (maxIterations - (counter + 3)) < nat (maxIterations - counter)" by simp
    define e1 where "e1 = calcWeiszfeldEstimate refPoints e0"
    define e2 where "e2 = calcWeiszfeldEstimate refPoints e1"
    define e3 where "e3 = calcAitkenEstimate [e0, e1, e2]"
    define D1 where "D1 = (axis_diff e1 e0 0, axis_diff e1 e0 1, axis_diff e1 e0 2)"
    define D2 where "D2 = (axis_diff e2 e1 0, axis_diff e2 e1 1, axis_diff e2 e1 2)"
    define D3 where "D3 = (axis_diff e3 e2 0, axis_diff e3 e2 1, axis_diff e3 e2 2)"
    define g where "g = next_guess e0 e1 e2 e3"
    have sub: "geomedian_substeps refPoints tol [1, 2, 3] [e0, a, b, c] [d0, d1, d2, d3]
               = (if flt (max_diff e1 e0) tol then Inl e1
                  else if flt (max_diff e2 e1) tol then Inl e2
                  else if flt (max_diff e3 e2) tol then Inl e3
                  else Inr ([e0, e1, e2, e3], [d0, D1, D2, D3]))"
      unfolding geomedian_substeps_unrolled e1_def e2_def e3_def D1_def D2_def D3_def
      by (simp add: Let_def)
    have fg: "foldl (\<lambda>guess k.
                 if fgt (axis D1 k) (axis D2 k) \<and> fgt (axis D2 k) (axis D3 k)
                 then set_axis guess k (axis ([e0, e1, e2, e3] ! 3) k)
                 else set_axis guess k (axis ([e0, e1, e2, e3] ! 2) k)) e0 axes = g"
      unfolding D1_def D2_def D3_def g_def
      by (simp add: foldl_set_axis_if next_guess_def next_guess_axis_def)
    have ih: "geomedian_loop maxIterations tol refPoints [g, e1, e2, e3] [d0, D1, D2, D3]
                (counter + 3)
              = geomedian_spec maxIterations tol refPoints g (counter + 3)"
      by (rule less.hyps [OF m])
    have l: "geomedian_loop maxIterations tol refPoints [e0, a, b, c] [d0, d1, d2, d3] counter
             = (if flt (max_diff e1 e0) tol then Inr e1
                else if flt (max_diff e2 e1) tol then Inr e2
                else if flt (max_diff e3 e2) tol then Inr e3
                else geomedian_spec maxIterations tol refPoints g (counter + 3))"
      using True
      by (subst geomedian_loop.simps, subst sub) (simp add: fg ih)
    have r: "geomedian_spec maxIterations tol refPoints e0 counter
             = (if flt (max_diff e1 e0) tol then Inr e1
                else if flt (max_diff e2 e1) tol then Inr e2
                else if flt (max_diff e3 e2) tol then Inr e3
                else geomedian_spec maxIterations tol refPoints g (counter + 3))"
      using True
      by (subst geomedian_spec.simps) (simp add: Let_def e1_def e2_def e3_def g_def)
    show ?thesis by (simp only: l r)
  qed
qed

lemma calcGeometricMedian_spec:
  "calcGeometricMedian maxIterations tol refPoints
   = geomedian_spec maxIterations tol refPoints (calcCentroid refPoints) 0"
proof -
  have "replicate 3 zero_coords = [zero_coords, zero_coords, zero_coords]"
    and "replicate 4 zero_coords = [zero_coords, zero_coords, zero_coords, zero_coords]"
    by (simp_all add: eval_nat_numeral)
  then show ?thesis by (simp add: calcGeometricMedian_def geomedian_loop_refines)
qed

subsection \<open>A Weiszfeld step with a point at distance zero\<close>

lemma finite_coordsE:
  assumes "finite_coords v"
  obtains a b c where "v = (Finite a, Finite b, Finite c)"
proof -
  obtain x y z where v: "v = (x, y, z)" by (cases v) auto
  from assms v obtain a b c where "x = Finite a" "y = Finite b" "z = Finite c"
    by (cases x; cases y; cases z) (simp_all add: finite_coords_def)
  with v that show ?thesis by simp
qed

lemma weiszfeld_metric_finite:
  "weiszfeld_metric (Finite a, Finite b, Finite c) (Finite a', Finite b', Finite c')
   = Finite (sqrt ((a - a') * (a - a') + (b - b') * (b - b') + (c - c') * (c - c')))"
proof -
  have "0 \<le> (a - a') * (a - a') + (b - b') * (b - b') + (c - c') * (c - c')" by simp
  then show ?thesis
    by (simp add: weiszfeld_metric_def axes_def fsub_def not_less [symmetric] del: not_less)
qed

lemma foldl_set_axis_acc:
  "foldl (\<lambda>d k. set_axis d k (f (axis d k) k)) d axes
   = (f (axis d 0) 0, f (axis d 1) 1, f (axis d 2) 2)"
  by (cases d) (simp add: axes_def)

lemma weiszfeld_point_eq:
  "weiszfeld_point est acc p =
     (fadd (fst acc) (fdiv (Finite 1) (weiszfeld_metric (snd p) est)),
      (fadd (axis (snd acc) 0) (fdiv (axis (snd p) 0) (weiszfeld_metric (snd p) est)),
       fadd (axis (snd acc) 1) (fdiv (axis (snd p) 1) (weiszfeld_metric (snd p) est)),
       fadd (axis (snd acc) 2) (fdiv (axis (snd p) 2) (weiszfeld_metric (snd p) est))))"
  unfolding weiszfeld_point_def Let_def
  by (simp add: foldl_set_axis_acc [where f = "\<lambda>x k. fadd x (fdiv (axis (snd p) k) (weiszfeld_metric (snd p) est))"])

lemma fadd_not_finite: "\<not> is_finite y \<Longrightarrow> \<not> is_finite (fadd x y)"
  "\<not> is_finite x \<Longrightarrow> \<not> is_finite (fadd x y)"
  by (cases x; cases y; simp)+

lemma fadd_denom_ok: "denom_ok x \<Longrightarrow> denom_ok y \<Longrightarrow> denom_ok (fadd x y)"
  by (cases x; cases y) (simp_all add: denom_ok_def)

lemma fadd_PosInf: "denom_ok y \<Longrightarrow> fadd PosInf y = PosInf" "denom_ok x \<Longrightarrow> fadd x PosInf = PosInf"
  by (cases y; simp add: denom_ok_def) (cases x; simp add: denom_ok_def)

lemma reciprocal_denom_ok: "0 \<le> m \<Longrightarrow> denom_ok (fdiv (Finite 1) (Finite m))"
  by (simp add: denom_ok_def)

lemma fdiv_zero_not_finite: "\<not> is_finite (fdiv (Finite a) (Finite 0))"
  by simp

lemma fdiv_PosInf_NaN: "\<not> is_finite x \<Longrightarrow> fdiv x PosInf = NaN"
  by (cases x) (simp_all add: inf_signed_def)

lemma step_denom_ok:
  assumes "finite_coords (snd p)" "finite_coords est" "denom_ok (fst acc)"
  shows "denom_ok (fst (weiszfeld_point est acc p))"
proof -
  from assms(1) obtain a b c where p: "snd p = (Finite a, Finite b, Finite c)" by (rule finite_coordsE)
  from assms(2) obtain a' b' c' where e: "est = (Finite a', Finite b', Finite c')" by (rule finite_coordsE)
  have "denom_ok (fdiv (Finite 1) (weiszfeld_metric (snd p) est))"
    unfolding p e weiszfeld_metric_finite by (rule reciprocal_denom_ok) simp
  then show ?thesis
    using assms(3) unfolding weiszfeld_point_eq by (simp add: fadd_denom_ok del: fdiv.simps)
qed

lemma step_coincident:
  assumes "snd p = est" "finite_coords est" "denom_ok (fst acc)"
  shows "degenerate_acc (weiszfeld_point est acc p)"
proof -
  from assms(2) obtain a b c where e: "est = (Finite a, Finite b, Finite c)" by (rule finite_coordsE)
  have m: "weiszfeld_metric est est = Finite 0" unfolding e weiszfeld_metric_finite by simp
  show ?thesis
    unfolding weiszfeld_point_eq assms(1) m degenerate_acc_def
    using assms(3) fadd_not_finite(1) fdiv_zero_not_finite
    by (simp add: e fadd_PosInf del: fdiv.simps) (simp add: fadd_PosInf)
qed

lemma step_degenerate:
  assumes "finite_coords (snd p)" "finite_coords est" "degenerate_acc acc"
  shows "degenerate_acc (weiszfeld_point est acc p)"
proof -
  from assms(1) obtain a b c where p: "snd p = (Finite a, Finite b, Finite c)" by (rule finite_coordsE)
  from assms(2) obtain a' b' c' where e: "est = (Finite a', Finite b', Finite c')" by (rule finite_coordsE)
  have "denom_ok (fdiv (Finite 1) (weiszfeld_metric (snd p) est))"
    unfolding p e weiszfeld_metric_finite by (rule reciprocal_denom_ok) simp
  then show ?thesis
    using assms(3) unfolding weiszfeld_point_eq degenerate_acc_def
    by (simp add: fadd_PosInf fadd_not_finite del: fdiv.simps)
qed

lemma foldl_denom_ok:
  "\<forall>p\<in>set ps. finite_coords (snd p) \<Longrightarrow> finite_coords est \<Longrightarrow> denom_ok (fst acc) \<Longrightarrow>
   denom_ok (fst (foldl (weiszfeld_point est) acc ps))"
  by (induction ps arbitrary: acc) (simp_all add: step_denom_ok)

lemma foldl_degenerate:
  "\<forall>p\<in>set ps. finite_coords (snd p) \<Longrightarrow> finite_coords est \<Longrightarrow> degenerate_acc acc \<Longrightarrow>
   degenerate_acc (foldl (weiszfeld_point est) acc ps)"
  by (induction ps arbitrary: acc) (simp_all add: step_degenerate)

lemma line_points_Weiszfeld:
  "calcWeiszfeldEstimate line_points (Finite 0, Finite 0, Finite 0) = (NaN, NaN, NaN)"
  by (simp add: calcWeiszfeldEstimate_def weiszfeld_point_eq weiszfeld_metric_finite line_points_def
        foldl_set_axis zero_coords_def)

subsection \<open>Reading the keys back\<close>

lemma Split_nonempty: "Split s \<noteq> []"
  by (induction s) (auto split: list.splits)

lemma Split_no_comma: "CHR '','' \<notin> set s \<Longrightarrow> Split s = [s]"
  by (induction s) auto

lemma Split_append_comma: "Split (x @ '','' @ r) = Split x @ Split r"
  by (induction x) (auto split: list.splits simp: Split_nonempty)

lemma Split_Join: "keys \<noteq> [] \<Longrightarrow> Split (Join keys '','') = concat (map Split keys)"
proof (induction keys rule: induct_list012)
  case 1
  then show ?case by simp
next
  case (2 x)
  then show ?case by simp
next
  case (3 x y ys)
  have "Split (Join (x # y # ys) '','') = Split x @ Split (Join (y # ys) '','')"
    using Split_append_comma [of x "Join (y # ys) '',''"] by simp
  with 3 show ?case by simp
qed

lemma Split_Join_member:
  "key \<in> set keys \<Longrightarrow> CHR '','' \<notin> set key \<Longrightarrow> key \<in> set (Split (Join keys '',''))"
proof -
  assume k: "key \<in> set keys" and c: "CHR '','' \<notin> set key"
  then have "keys \<noteq> []" by auto
  then have "Split (Join keys '','') = concat (map Split keys)" by (rule Split_Join)
  moreover have "key \<in> set (Split key)" using c by (simp add: Split_no_comma)
  ultimately show ?thesis using k by auto
qed

lemma Query_keys_Split:
  assumes "Make e fuel elapsed meth terminal_N refPoints st0 = Some (Inr st)"
    and "(key, v) \<in> set refPoints" and "CHR '','' \<notin> set key"
  shows "\<exists>keys. Query st v = Some (Inr keys) \<and> key \<in> set (Split keys)"
proof -
  from Make_reaches [OF assms(1), of v] obtain i sub where
    d: "descend (octree st) (STOP (stats st)) v 0 = Some (Inr (KEYS (octree st ! i)))" and
    k: "KEYS (octree st ! i) = Join (map fst sub) '',''" and
    s: "\<forall>p\<in>set refPoints. snd p = v \<longrightarrow> p \<in> set sub"
    unfolding reaches_def by auto
  have "SIZE (stats st) \<noteq> 0" using Make_nodes_ok(1,2) [OF assms(1)] by simp
  then have "Query st v = Some (Inr (Join (map fst sub) '',''))"
    using d k by (simp add: Query_def)
  moreover have "key \<in> set (map fst sub)" using s assms(2) by force
  ultimately show ?thesis using Split_Join_member [OF _ assms(3)] by blast
qed

section \<open>The claims\<close>

text \<open>
  Claim C1. Whenever \<open>Make\<close> returns (which takes one of the four method names, a
  termination criterion above 1 and a data set that is not empty), \<open>Query\<close> at the
  coordinates of any point of the data set returns the joined keys of a leaf; the
  identifier of the point is one of the keys that were joined, and each of them is an
  identifier of the data set.
\<close>

theorem Query_self_membership:
  assumes "Make e fuel elapsed meth terminal_N refPoints st0 = Some (Inr st)"
    and "(key, v) \<in> set refPoints"
  shows "\<exists>keys. Query st v = Some (Inr (Join keys '','')) \<and> key \<in> set keys
           \<and> set keys \<subseteq> fst ` set refPoints"
proof -
  from Make_reaches [OF assms(1), of v] obtain i sub where
    d: "descend (octree st) (STOP (stats st)) v 0 = Some (Inr (KEYS (octree st ! i)))" and
    k: "KEYS (octree st ! i) = Join (map fst sub) '',''" and
    s: "set sub \<subseteq> set refPoints" "\<forall>p\<in>set refPoints. snd p = v \<longrightarrow> p \<in> set sub"
    unfolding reaches_def by auto
  have "SIZE (stats st) \<noteq> 0" using Make_nodes_ok(1,2) [OF assms(1)] by simp
  then have "Query st v = Some (Inr (Join (map fst sub) '',''))"
    using d k by (simp add: Query_def)
  moreover have "key \<in> set (map fst sub)" using s(2) assms(2) by force
  moreover have "set (map fst sub) \<subseteq> fst ` set refPoints" using s(1) by auto
  ultimately show ?thesis by blast
qed

theorem Query_self_membership_witness:
  "\<exists>st. Make example_env 2 0 ''Centroid'' 2 example_points initial_state = Some (Inr st)
     \<and> (''A'', (Finite 0, Finite 0, Finite 0)) \<in> set example_points
     \<and> Query st (Finite 0, Finite 0, Finite 0) = Some (Inr ''A,B'')
     \<and> (\<exists>keys. Query st (Finite 0, Finite 0, Finite 0) = Some (Inr (Join keys '',''))
           \<and> ''A'' \<in> set keys)"
proof -
  from example_Make obtain st where
    m: "Make example_env 2 0 ''Centroid'' 2 example_points initial_state = Some (Inr st)" and
    o: "octree st = example_octree" "SIZE (stats st) = 9" "STOP (stats st) = 2"
    by blast
  have a: "(''A'', (Finite 0, Finite 0, Finite 0)) \<in> set example_points"
    by (simp add: example_points_def)
  have q: "Query st (Finite 0, Finite 0, Finite 0) = Some (Inr ''A,B'')"
    by (simp add: Query_def o example_Query)
  from Query_self_membership [OF m a] m a q show ?thesis by blast
qed




text \<open>
  Claim C3. Whenever \<open>Make\<close> returns, with termination criterion \<open>terminal_N > 1\<close>, every
  node with the shape of a leaf, and every node that the comparison with \<open>STOP\<close> takes
  for a leaf, has a count of at most \<open>terminal_N\<close>; the counts of the leaves add up to
  the size of the data set, and they are the \<open>LEAFCOUNTS\<close> of the statistics.
\<close>

theorem leaf_counts_bounded_and_total:
  assumes "Make e fuel elapsed meth terminal_N refPoints st0 = Some (Inr st)"
  shows "1 < terminal_N
         \<and> (\<forall>nd\<in>set (octree st). leaf_shape nd \<longrightarrow> N nd \<le> terminal_N)
         \<and> (\<forall>nd\<in>set (leaves (STOP (stats st)) (octree st)). N nd \<le> terminal_N)
         \<and> sum_list (map N (leaves (STOP (stats st)) (octree st))) = int (length refPoints)
         \<and> LEAFCOUNTS (stats st) = map N (leaves (STOP (stats st)) (octree st))"
proof -
  from Make_built [OF assms] obtain calc where
    b: "built calc terminal_N 0 refPoints (octree st)" and t: "1 < terminal_N" and
    s: "STOP (stats st) = terminal_N" and
    l: "LEAFCOUNTS (stats st) = map N (leaves terminal_N (octree st))"
    by blast
  have "\<forall>nd\<in>set (octree st). leaf_shape nd \<longrightarrow> N nd \<le> terminal_N"
  proof (intro ballI impI)
    fix nd assume "nd \<in> set (octree st)" and ls: "leaf_shape nd"
    then obtain i where i: "i < length (octree st)" "nd = octree st ! i"
      by (auto simp: in_set_conv_nth)
    from Make_nodes_ok(4) [OF assms i(1)] ls i(2) parent_not_leaf [of i "length (octree st)" nd]
    show "N nd \<le> terminal_N" by (auto simp: node_ok_def split: if_splits)
  qed
  moreover have "\<forall>nd\<in>set (leaves (STOP (stats st)) (octree st)). N nd \<le> terminal_N"
    by (auto simp: leaves_def s)
  ultimately show ?thesis using built_leaf_total [OF b] t s l by simp
qed

theorem leaf_counts_bounded_and_total_witness:
  "\<exists>st. Make example_env 2 0 ''Centroid'' 2 example_points initial_state = Some (Inr st)
     \<and> LEAFCOUNTS (stats st) = [2, 0, 0, 0, 0, 0, 0, 1]
     \<and> sum_list (LEAFCOUNTS (stats st)) = int (length example_points)
     \<and> leaf_shape (octree st ! 1) \<and> N (octree st ! 1) = 2"
proof -
  from example_Make obtain st where
    m: "Make example_env 2 0 ''Centroid'' 2 example_points initial_state = Some (Inr st)" and
    o: "octree st = example_octree" "SIZE (stats st) = 9" "STOP (stats st) = 2"
    by blast
  have lv: "map N (leaves 2 example_octree) = [2, 0, 0, 0, 0, 0, 0, 1]"
    by (simp add: leaves_def example_octree_def blank_node_def)
  have ls: "leaf_shape (octree st ! 1)"
    unfolding leaf_shape_def o example_octree_def
    by (auto simp: blank_node_def intro: exI [of _ "[''A'', ''B'']"])
  have n: "N (octree st ! 1) = 2" by (simp add: o example_octree_def blank_node_def)
  from leaf_counts_bounded_and_total [OF m] o lv ls n m show ?thesis
    by (auto simp: example_points_def)
qed

text \<open>
  Claim C4. \<open>assignOctant\<close> is a function of the center and the point whose value lies
  in [0,7]; bit 0, 1, 2 of the value is set exactly when the point's x, y, z coordinate
  is greater than the center's; a coordinate equal to the center's leaves its bit
  unset, and a point equal to the center on all axes is assigned octant 0.
\<close>

theorem assignOctant_total_bits:
  "0 \<le> assignOctant c p \<and> assignOctant c p \<le> 7
   \<and> (bit (assignOctant c p) 0 \<longleftrightarrow> fgt (axis p 0) (axis c 0))
   \<and> (bit (assignOctant c p) 1 \<longleftrightarrow> fgt (axis p 1) (axis c 1))
   \<and> (bit (assignOctant c p) 2 \<longleftrightarrow> fgt (axis p 2) (axis c 2))
   \<and> (\<forall>k<3. axis p k = axis c k \<longrightarrow> \<not> bit (assignOctant c p) k)
   \<and> assignOctant c c = 0"
proof -
  have b0: "bit (assignOctant c p) 0 \<longleftrightarrow> fgt (axis p 0) (axis c 0)"
    by (simp add: assignOctant_cases bit_0)
  have b1: "bit (assignOctant c p) 1 \<longleftrightarrow> fgt (axis p 1) (axis c 1)"
    by (simp add: assignOctant_cases bit_Suc)
  have b2: "bit (assignOctant c p) 2 \<longleftrightarrow> fgt (axis p 2) (axis c 2)"
    by (simp add: assignOctant_cases bit_Suc numeral_2_eq_2 bit_0)
  have low: "\<forall>k<3. axis p k = axis c k \<longrightarrow> \<not> bit (assignOctant c p) k"
  proof (intro allI impI)
    fix k :: nat
    assume "k < 3" and e: "axis p k = axis c k"
    then consider "k = 0" | "k = 1" | "k = 2" by linarith
    then show "\<not> bit (assignOctant c p) k"
      using b0 b1 b2 e fgt_irrefl by cases auto
  qed
  have z: "assignOctant c c = 0"
    by (simp add: assignOctant_cases fgt_irrefl)
  from assignOctant_range b0 b1 b2 low z show ?thesis by blast
qed

theorem assignOctant_total_bits_witness:
  "assignOctant (Finite 1, Finite 1, Finite 1) (Finite 2, Finite 1, Finite 3) = 5
   \<and> bit (5::int) 0 \<and> \<not> bit (5::int) 1 \<and> bit (5::int) 2
   \<and> axis (Finite 2, Finite 1, Finite 3) 1 = axis (Finite 1, Finite 1, Finite 1) 1"
  using assignOctant_total_bits [of "(Finite 1, Finite 1, Finite 1)" "(Finite 2, Finite 1, Finite 3)"]
  by (simp add: assignOctant_cases fgt_def)

text \<open>
  Claim C5. Whenever \<open>Make\<close> returns, \<open>STOP\<close> is the termination criterion of the build,
  node 0 is the root (its count is the size of the data set), and for every node the
  comparison of its count with \<open>STOP\<close> decides its shape: above \<open>STOP\<close> it has the shape
  of a parent, with eight links that are indices of the octree greater than its own,
  and not the shape of a leaf; otherwise it has the shape of a leaf and not that of a
  parent.
\<close>

theorem built_octree_invariant:
  assumes "Make e fuel elapsed meth terminal_N refPoints st0 = Some (Inr st)"
  shows "STOP (stats st) = terminal_N \<and> octree st \<noteq> []
         \<and> N (octree st ! 0) = int (length refPoints)
         \<and> (\<forall>i<length (octree st).
               if N (octree st ! i) > STOP (stats st)
               then parent_shape i (length (octree st)) (octree st ! i) \<and> \<not> leaf_shape (octree st ! i)
               else leaf_shape (octree st ! i) \<and> \<not> parent_shape i (length (octree st)) (octree st ! i))"
proof -
  from Make_built [OF assms] obtain calc where
    b: "built calc terminal_N 0 refPoints (octree st)" by blast
  have "\<forall>i<length (octree st).
               if N (octree st ! i) > STOP (stats st)
               then parent_shape i (length (octree st)) (octree st ! i) \<and> \<not> leaf_shape (octree st ! i)
               else leaf_shape (octree st ! i) \<and> \<not> parent_shape i (length (octree st)) (octree st ! i)"
  proof (intro allI impI)
    fix i assume i: "i < length (octree st)"
    from Make_nodes_ok(3,4) [OF assms] i
    have ok: "node_ok (STOP (stats st)) i (length (octree st)) (octree st ! i)" by simp
    show "if N (octree st ! i) > STOP (stats st)
               then parent_shape i (length (octree st)) (octree st ! i) \<and> \<not> leaf_shape (octree st ! i)
               else leaf_shape (octree st ! i) \<and> \<not> parent_shape i (length (octree st)) (octree st ! i)"
      using ok parent_not_leaf [of i "length (octree st)" "octree st ! i"] by (auto simp: node_ok_def)
  qed
  with Make_nodes_ok(1,3) [OF assms] built_first [OF b] show ?thesis by simp
qed

theorem built_octree_invariant_witness:
  "\<exists>st. Make example_env 2 0 ''Centroid'' 2 example_points initial_state = Some (Inr st)
     \<and> STOP (stats st) = 2 \<and> length (octree st) = 9 \<and> N (octree st ! 0) = 3
     \<and> N (octree st ! 0) > STOP (stats st) \<and> parent_shape 0 9 (octree st ! 0)
     \<and> \<not> N (octree st ! 1) > STOP (stats st) \<and> leaf_shape (octree st ! 1)"
proof -
  from example_Make obtain st where
    m: "Make example_env 2 0 ''Centroid'' 2 example_points initial_state = Some (Inr st)" and
    o: "octree st = example_octree" "SIZE (stats st) = 9" "STOP (stats st) = 2"
    by blast
  have l: "length (octree st) = 9" "N (octree st ! 0) = 3" "N (octree st ! 1) = 2"
    by (simp_all add: o example_octree_def blank_node_def)
  from built_octree_invariant [OF m] l o(3)
  have "parent_shape 0 9 (octree st ! 0)" and "leaf_shape (octree st ! 1)"
    by (auto split: if_splits)
  with m l o show ?thesis by simp
qed

text \<open>
  Claim C6. The geometric-median calculator of \<open>makeCalcCenter\<close>, with its arrays of
  estimates and differences and its loop over the three sub-steps, computes what the
  specified estimator \<open>geomedian_spec\<close> computes from the centroid and the counter 0:
  convergence is tested after each of the two Weiszfeld steps and after the Aitken
  step, the estimate at hand is returned at once when the largest difference over the
  axes is below the tolerance, the next guess is chosen axis by axis, the counter
  advances by 3, and the result is \<open>MaxIterationsExceeded\<close> when the counter has reached
  \<open>maxIterations\<close>.
\<close>

theorem calcGeometricMedian_refines:
  "calcGeometricMedian maxIterations tol refPoints
   = geomedian_spec maxIterations tol refPoints (calcCentroid refPoints) 0"
  by (rule calcGeometricMedian_spec)

theorem calcGeometricMedian_refines_witness:
  "calcGeometricMedian 1000 (Finite (1 / 10 ^ 12)) pair_points = Inr (Finite 0, Finite 0, Finite 0)
   \<and> calcGeometricMedian 0 (Finite (1 / 10 ^ 12)) pair_points = Inl MaxIterationsExceeded"
proof -
  have c: "calcCentroid pair_points = (Finite 0, Finite 0, Finite 0)"
    by (simp add: calcCentroid_def pair_points_def axes_def zero_coords_def float64_of_int_def)
  have w: "calcWeiszfeldEstimate pair_points (Finite 0, Finite 0, Finite 0)
           = (Finite 0, Finite 0, Finite 0)"
    by (simp add: calcWeiszfeldEstimate_def weiszfeld_point_eq weiszfeld_metric_finite
          pair_points_def foldl_set_axis zero_coords_def)
  have d: "flt (max_diff (Finite 0, Finite 0, Finite 0) (Finite 0, Finite 0, Finite 0))
             (Finite (1 / 10 ^ 12))"
    by (simp add: max_diff_def axis_diff_def fsub_def)
  have "geomedian_spec 1000 (Finite (1 / 10 ^ 12)) pair_points (Finite 0, Finite 0, Finite 0) 0
        = Inr (Finite 0, Finite 0, Finite 0)"
    using d by (subst geomedian_spec.simps) (simp add: w Let_def)
  moreover have "geomedian_spec 0 (Finite (1 / 10 ^ 12)) pair_points (Finite 0, Finite 0, Finite 0) 0
        = Inl MaxIterationsExceeded"
    by (subst geomedian_spec.simps) simp
  ultimately show ?thesis
    using calcGeometricMedian_refines [of 1000 "Finite (1 / 10 ^ 12)" pair_points]
      calcGeometricMedian_refines [of 0 "Finite (1 / 10 ^ 12)" pair_points]
    by (simp add: c)
qed

text \<open>
  Claim C7, as amended. \<open>calcWeiszfeldEstimate\<close> has no failure: it returns coordinates
  for every data set and estimate. When the points of the data set are finite and one
  of them coincides with the estimate, the distance of this point is zero, the
  divisions by it give infinities and NaNs, and the estimate that is returned is a NaN
  on each of the three axes; no numerical-degeneracy condition is raised.
\<close>

theorem Weiszfeld_coincident_point_NaN:
  assumes fin: "\<forall>p\<in>set refPoints. finite_coords (snd p)"
    and co: "\<exists>p\<in>set refPoints. snd p = refEstimate"
  shows "calcWeiszfeldEstimate refPoints refEstimate = (NaN, NaN, NaN)"
proof -
  from co obtain p where p: "p \<in> set refPoints" "snd p = refEstimate" by blast
  then obtain xs ys where s: "refPoints = xs @ p # ys" by (auto simp: in_set_conv_decomp)
  have fe: "finite_coords refEstimate" using fin p by auto
  have "denom_ok (fst (foldl (weiszfeld_point refEstimate) (Finite 0, zero_coords) xs))"
    using fin fe by (intro foldl_denom_ok) (simp_all add: s denom_ok_def)
  then have "degenerate_acc (weiszfeld_point refEstimate
               (foldl (weiszfeld_point refEstimate) (Finite 0, zero_coords) xs) p)"
    using p(2) fe by (intro step_coincident)
  then have d: "degenerate_acc (foldl (weiszfeld_point refEstimate) (Finite 0, zero_coords) refPoints)"
    using fin fe by (simp add: s foldl_degenerate)
  show ?thesis
    unfolding calcWeiszfeldEstimate_def Let_def
    using d by (simp add: foldl_set_axis degenerate_acc_def fdiv_PosInf_NaN)
qed

theorem Weiszfeld_coincident_point_NaN_witness:
  "list_all (\<lambda>p. finite_coords (snd p)) line_points
   \<and> snd (line_points ! 1) = (Finite 0, Finite 0, Finite 0)
   \<and> calcCentroid line_points = (Finite 0, Finite 0, Finite 0)
   \<and> calcWeiszfeldEstimate line_points (Finite 0, Finite 0, Finite 0) = (NaN, NaN, NaN)"
proof -
  have f: "\<forall>p\<in>set line_points. finite_coords (snd p)"
    by (simp add: line_points_def finite_coords_def)
  have c: "\<exists>p\<in>set line_points. snd p = (Finite 0, Finite 0, Finite 0)"
    by (simp add: line_points_def)
  have "calcCentroid line_points = (Finite 0, Finite 0, Finite 0)"
    by (simp add: calcCentroid_def line_points_def axes_def zero_coords_def float64_of_int_def)
  with Weiszfeld_coincident_point_NaN [OF f c] f show ?thesis
    by (simp add: line_points_def list_all_iff)
qed

text \<open>
  The claim as stated fails: for three points on a line the centroid is the middle
  point, the Weiszfeld step from the centroid returns NaNs where the claim has it fail,
  and the estimator goes on with them until the counter reaches \<open>MaxIterations\<close>.
\<close>

theorem Weiszfeld_degeneracy_counterexample:
  "snd (line_points ! 1) = (Finite 0, Finite 0, Finite 0)
   \<and> calcWeiszfeldEstimate line_points (Finite 0, Finite 0, Finite 0) = (NaN, NaN, NaN)
   \<and> calcGeometricMedian 3 (Finite (1 / 10 ^ 12)) line_points = Inl MaxIterationsExceeded"
proof -
  have c: "calcCentroid line_points = (Finite 0, Finite 0, Finite 0)"
    by (simp add: calcCentroid_def line_points_def axes_def zero_coords_def float64_of_int_def)
  have n: "calcWeiszfeldEstimate line_points (NaN, NaN, NaN) = (NaN, NaN, NaN)"
    by (simp add: calcWeiszfeldEstimate_def weiszfeld_point_eq weiszfeld_metric_def line_points_def
        foldl_set_axis zero_coords_def axes_def fsub_def)
  have a: "calcAitkenEstimate [(Finite 0, Finite 0, Finite 0), (NaN, NaN, NaN), (NaN, NaN, NaN)]
           = (NaN, NaN, NaN)"
    by (simp add: calcAitkenEstimate_def axes_def fsub_def fne_def zero_coords_def)
  have d: "max_diff (NaN, NaN, NaN) x = NaN" for x
    by (simp add: max_diff_def axis_diff_def fsub_def)
  have g: "next_guess (Finite 0, Finite 0, Finite 0) (NaN, NaN, NaN) (NaN, NaN, NaN) (NaN, NaN, NaN)
           = (NaN, NaN, NaN)"
    by (simp add: next_guess_def next_guess_axis_def)
  have "geomedian_spec 3 (Finite (1 / 10 ^ 12)) line_points (Finite 0, Finite 0, Finite 0) 0
        = Inl MaxIterationsExceeded"
    by (subst geomedian_spec.simps, simp add: line_points_Weiszfeld n a d g Let_def,
        subst geomedian_spec.simps, simp)
  then have "calcGeometricMedian 3 (Finite (1 / 10 ^ 12)) line_points = Inl MaxIterationsExceeded"
    by (simp add: calcGeometricMedian_spec c)
  moreover have "snd (line_points ! 1) = (Finite 0, Finite 0, Finite 0)"
    by (simp add: line_points_def)
  ultimately show ?thesis using line_points_Weiszfeld by simp
qed

text \<open>
  Claim C8. \<open>Make\<close> with a termination criterion of 1 or less halts with
  \<open>InvalidThreshold\<close>, whatever the other arguments. \<open>Make\<close> with a method name that is
  none of the four halts with \<open>InvalidMethod\<close> when the termination criterion and the
  data set pass the two checks that come first: \<open>makeBuilder\<close> halts, so no builder is
  made, the result does not depend on the depth of recursion allowed, and no state is
  returned. \<open>Query\<close> on the initial state of the package halts with \<open>EmptyTree\<close>.
\<close>

theorem Make_Query_invalid_calls:
  "(terminal_N \<le> 1 \<longrightarrow>
      Make e fuel elapsed meth terminal_N refPoints st = Some (Inl InvalidThreshold))
   \<and> (1 < terminal_N \<and> refPoints \<noteq> []
        \<and> meth \<notin> {''Centroid'', ''DataMidPoint'', ''Geometric Median'', ''XYZ Medians''} \<longrightarrow>
      makeBuilder e meth terminal_N (length refPoints) = Inl InvalidMethod
      \<and> Make e fuel elapsed meth terminal_N refPoints st = Some (Inl InvalidMethod))
   \<and> Query initial_state q = Some (Inl EmptyTree)"
  by (auto simp: Make_def makeBuilder_def makeCalcCenter_def Query_def initial_state_def
        blank_statistics_def)

theorem Make_Query_invalid_calls_witness:
  "Make example_env 0 0 ''XYZ Medians'' 1 example_points initial_state = Some (Inl InvalidThreshold)
   \<and> Make example_env 0 0 ''bogus'' 50 example_points initial_state = Some (Inl InvalidMethod)
   \<and> Query initial_state (Finite 0, Finite 0, Finite 0) = Some (Inl EmptyTree)"
  using Make_Query_invalid_calls [where terminal_N = 1 and e = example_env and fuel = 0
          and elapsed = 0 and meth = "''XYZ Medians''" and refPoints = example_points
          and st = initial_state and q = "(Finite 0, Finite 0, Finite 0)"]
        Make_Query_invalid_calls [where terminal_N = 50 and e = example_env and fuel = 0
          and elapsed = 0 and meth = "''bogus''" and refPoints = example_points
          and st = initial_state and q = "(Finite 0, Finite 0, Finite 0)"]
  by (simp add: example_points_def)




text \<open>
  Claim C10. Whenever \<open>Make\<close> returns, \<open>Query\<close> returns for every query point, inside or
  outside the extent of the data, and what it returns is the end of the descent from
  the root: there is a path of nodes that starts at node 0, in which every node but the
  last is a parent (its count is above \<open>STOP\<close>) followed by the link that the parent
  holds for the octant of the query point about the parent's center, a node with a
  greater index; the last node of the path is a leaf (its count is at most \<open>STOP\<close>), and
  the result of \<open>Query\<close> is the keys of this leaf. At every parent of the octree, the link
  for the octant of the query point is greater than the parent's index and less than
  the length of the octree.
\<close>

theorem Query_terminates:
  assumes "Make e fuel elapsed meth terminal_N refPoints st0 = Some (Inr st)"
  shows "(\<exists>path. descent_path (octree st) (STOP (stats st)) q (0 # path)
            \<and> Query st q = Some (Inr (KEYS (octree st ! last (0 # path)))))
         \<and> (\<exists>i<length (octree st). \<not> N (octree st ! i) > STOP (stats st)
            \<and> Query st q = Some (Inr (KEYS (octree st ! i))))
         \<and> (\<forall>j<length (octree st). N (octree st ! j) > STOP (stats st) \<longrightarrow>
               int j < CHILDREN (octree st ! j) ! nat (assignOctant (CENTER (octree st ! j)) q)
               \<and> CHILDREN (octree st ! j) ! nat (assignOctant (CENTER (octree st ! j)) q)
                   < int (length (octree st)))"
proof (intro conjI allI impI)
  have size: "SIZE (stats st) \<noteq> 0" using Make_nodes_ok(1,2) [OF assms] by simp
  from Make_descent_path [OF assms, of q] obtain path where
    p: "descent_path (octree st) (STOP (stats st)) q (0 # path)" and
    d: "descend (octree st) (STOP (stats st)) q 0
          = Some (Inr (KEYS (octree st ! last (0 # path))))"
    by blast
  from d size have "Query st q = Some (Inr (KEYS (octree st ! last (0 # path))))"
    by (simp add: Query_def)
  with p show "\<exists>path. descent_path (octree st) (STOP (stats st)) q (0 # path)
            \<and> Query st q = Some (Inr (KEYS (octree st ! last (0 # path))))" by blast
  from Make_reaches [OF assms, of q] obtain i where
    d: "descend (octree st) (STOP (stats st)) q 0 = Some (Inr (KEYS (octree st ! i)))" and
    i: "i < length (octree st)" "\<not> N (octree st ! i) > STOP (stats st)"
    unfolding reaches_def by auto
  from size have "Query st q = Some (Inr (KEYS (octree st ! i)))" using d by (simp add: Query_def)
  with i show "\<exists>i<length (octree st). \<not> N (octree st ! i) > STOP (stats st)
            \<and> Query st q = Some (Inr (KEYS (octree st ! i)))" by blast
next
  fix j assume j: "j < length (octree st)" and p: "N (octree st ! j) > STOP (stats st)"
  let ?k = "nat (assignOctant (CENTER (octree st ! j)) q)"
  from Make_nodes_ok(3,4) [OF assms] j p
  have ps: "parent_shape j (length (octree st)) (octree st ! j)" by (simp add: node_ok_def)
  then have "?k < length (CHILDREN (octree st ! j))"
    using assignOctant_nat_less by (simp add: parent_shape_def)
  then have "CHILDREN (octree st ! j) ! ?k \<in> set (CHILDREN (octree st ! j))" by simp
  with ps show "int j < CHILDREN (octree st ! j) ! ?k"
    and "CHILDREN (octree st ! j) ! ?k < int (length (octree st))"
    by (auto simp: parent_shape_def list_all_iff)
qed

theorem Query_terminates_witness:
  "\<exists>st. Make example_env 2 0 ''Centroid'' 2 example_points initial_state = Some (Inr st)
     \<and> (\<exists>path. descent_path (octree st) (STOP (stats st)) (Finite 9, Finite (-9), Finite 9) (0 # path)
            \<and> Query st (Finite 9, Finite (-9), Finite 9)
                = Some (Inr (KEYS (octree st ! last (0 # path)))))
     \<and> descent_path (octree st) (STOP (stats st)) (Finite 9, Finite (-9), Finite 9) [0, 6]
     \<and> Query st (Finite 9, Finite (-9), Finite 9) = Some (Inr (KEYS (octree st ! 6)))
     \<and> descent_path (octree st) (STOP (stats st)) (Finite 9, Finite 9, Finite 9) [0, 8]
     \<and> Query st (Finite 9, Finite 9, Finite 9) = Some (Inr ''C'')
     \<and> N (octree st ! 0) > STOP (stats st)
     \<and> CHILDREN (octree st ! 0) ! nat (assignOctant (CENTER (octree st ! 0)) (Finite 9, Finite (-9), Finite 9)) = 6"
proof -
  from example_Make obtain st where
    m: "Make example_env 2 0 ''Centroid'' 2 example_points initial_state = Some (Inr st)" and
    o: "octree st = example_octree" "SIZE (stats st) = 9" "STOP (stats st) = 2"
    by blast
  have "N (octree st ! 0) > STOP (stats st)
     \<and> CHILDREN (octree st ! 0) ! nat (assignOctant (CENTER (octree st ! 0)) (Finite 9, Finite (-9), Finite 9)) = 6"
    by (simp add: o example_octree_def assignOctant_cases fgt_def)
  moreover have "descent_path (octree st) (STOP (stats st)) (Finite 9, Finite (-9), Finite 9) [0, 6]"
    by (simp add: o example_octree_def blank_node_def assignOctant_cases fgt_def)
  moreover have "Query st (Finite 9, Finite (-9), Finite 9) = Some (Inr (KEYS (octree st ! 6)))"
    by (simp add: Query_def o descend.simps example_octree_def blank_node_def assignOctant_cases fgt_def)
  moreover have "descent_path (octree st) (STOP (stats st)) (Finite 9, Finite 9, Finite 9) [0, 8]"
    by (simp add: o example_octree_def blank_node_def assignOctant_cases fgt_def)
  moreover have "Query st (Finite 9, Finite 9, Finite 9) = Some (Inr ''C'')"
    by (simp add: Query_def o descend.simps example_octree_def blank_node_def assignOctant_cases fgt_def)
  ultimately show ?thesis
    using Query_terminates [OF m, of "(Finite 9, Finite (-9), Finite 9)"] m by blast
qed

end
